theory Spec2Isabelle
  imports Complex_Main "HOL-Library.AList"
begin

section \<open>Python values used by megatron/model/chatglm3\_model.py\<close>

text \<open>
  Exceptions of the source and of the array layer it calls become values of
  \<open>error\<close>; a function that may raise returns \<open>error + 'a\<close> with \<open>Inl\<close> the
  exception.
\<close>

datatype error =
    AssertionError
  | IndexError
  | KeyError
  | RuntimeError
  | TypeError
  | AttributeError

text \<open>
  A Python \<open>dict\<close> is an association list in insertion order. \<open>d[k] = v\<close> is
  \<open>AList.update k v d\<close> (an existing key keeps its place, a new key goes last),
  \<open>del d[k]\<close> is \<open>AList.delete k d\<close>, \<open>k in d\<close> is \<open>map_of d k \<noteq> None\<close>, and
  \<open>d[k]\<close> is \<open>map_of d k\<close> with \<open>None\<close> the \<open>KeyError\<close>.
  Two dicts are equal in Python when their \<open>map_of\<close> agree.
\<close>

datatype 't pyobj =
    Tens 't
  | Dict "(string \<times> 't pyobj) list"

type_synonym 't pydict = "(string \<times> 't pyobj) list"

section \<open>universal\_checkpoint\_info (lines 183-210)\<close>

text \<open>
  The four names imported from \<open>deepspeed.checkpoint\<close> (lines 27-36) belong to
  another package: the three category keys are parameters, and
  \<open>DS_UNIVERSAL_CHECKPOINT_INFO\<close> records whether the import succeeded.
\<close>

record ds_checkpoint =
  DS_UNIVERSAL_CHECKPOINT_INFO :: bool
  VOCABULARY_PARAMETER_PATTERNS :: string
  TP_REPLICATED_PARAMETER_PATTERNS :: string
  PARAMETER_WITH_ROW_PARALLELISM_PATTERNS :: string

text \<open>
  The raw-string prefix \<open>\d+\<close> of the per-layer patterns: backslash,
  d, plus.
\<close>

definition layer_prefix :: string where
  "layer_prefix = [CHR 0x5C, CHR ''d'', CHR ''+'']"

definition vocabulary_patterns :: "string list" where
  "vocabulary_patterns = [''tied_modules.embed.word_embeddings.weight'']"

definition tp_replicated_patterns :: "string list" where
  "tp_replicated_patterns =
     [''tied_modules.embed.position_embeddings.weight'',
      layer_prefix @ ''.input_layernorm.weight'',
      layer_prefix @ ''.input_layernorm.bias'',
      layer_prefix @ ''.post_attention_layernorm.weight'',
      layer_prefix @ ''.post_attention_layernorm.bias'',
      layer_prefix @ ''.self_attention.dense.bias'',
      layer_prefix @ ''.mlp.dense_4h_to_h.bias'',
      layer_prefix @ ''.weight'',
      layer_prefix @ ''.bias'']"

definition row_parallelism_patterns :: "string list" where
  "row_parallelism_patterns =
     [layer_prefix @ ''.mlp.dense_4h_to_h.weight'',
      layer_prefix @ ''.self_attention.dense.weight'']"

definition universal_checkpoint_info :: "ds_checkpoint \<Rightarrow> (string \<times> string list) list" where
  "universal_checkpoint_info ds =
     (let info = [] in
      if DS_UNIVERSAL_CHECKPOINT_INFO ds then
        (let info = AList.update (VOCABULARY_PARAMETER_PATTERNS ds) vocabulary_patterns info;
             info = AList.update (TP_REPLICATED_PARAMETER_PATTERNS ds) tp_replicated_patterns info;
             info = AList.update (PARAMETER_WITH_ROW_PARALLELISM_PATTERNS ds)
                      row_parallelism_patterns info
         in info)
      else info)"

text \<open>The values \<open>deepspeed.checkpoint\<close> gives the three keys.\<close>

definition deepspeed_constants :: "bool \<Rightarrow> ds_checkpoint" where
  "deepspeed_constants available =
     \<lparr>DS_UNIVERSAL_CHECKPOINT_INFO = available,
      VOCABULARY_PARAMETER_PATTERNS = ''vocabulary_parameter_patterns'',
      TP_REPLICATED_PARAMETER_PATTERNS = ''tp_replicated_parameter_patterns'',
      PARAMETER_WITH_ROW_PARALLELISM_PATTERNS = ''parameter_with_row_parallelism_patterns''\<rparr>"

section \<open>The checkpoint state adapter (lines 146-181)\<close>

text \<open>
  Python's \<open>pat in s\<close> on strings: \<open>pat\<close> occurs in \<open>s\<close> as a contiguous
  substring.
\<close>

fun starts_with :: "string \<Rightarrow> string \<Rightarrow> bool" where
  "starts_with [] s = True"
| "starts_with (p # ps) [] = False"
| "starts_with (p # ps) (c # cs) = (p = c \<and> starts_with ps cs)"

fun str_in :: "string \<Rightarrow> string \<Rightarrow> bool" where
  "str_in pat [] = (pat = [])"
| "str_in pat (c # cs) = (starts_with pat (c # cs) \<or> str_in pat cs)"

definition has_key :: "string \<Rightarrow> 't pydict \<Rightarrow> bool" where
  "has_key k d = (map_of d k \<noteq> None)"

text \<open>
  Modelled from the spec: the two attributes \<open>self._language_model_key\<close> and
  \<open>self._word_embeddings_for_head_key\<close> are set by \<open>get_language_model\<close> and
  \<open>MegatronModule.initialize_word_embeddings\<close>, which are not in this file; the
  spec names the stage identifiers \<open>language_model\<close> and
  \<open>word_embeddings_for_head\<close>.
\<close>

definition language_model_key :: string where
  "language_model_key = ''language_model''"

definition word_embeddings_for_head_key :: string where
  "word_embeddings_for_head_key = ''word_embeddings_for_head''"

text \<open>
  The fields \<open>__init__\<close> stores (lines 81-86), and the collaborators the
  instance owns: the inner language model's and the head word-embedding's own
  state dicts, and the two candidate logit weights of line 140.
\<close>

record 't ChatGLM3Model =
  parallel_output :: bool
  pre_process :: bool
  post_process :: bool
  fp16_lm_cross_entropy :: bool
  return_moe_loss :: bool
  untie_embeddings_and_output_weights :: bool
  language_model_state_dict_for_save_checkpoint :: "string \<Rightarrow> bool \<Rightarrow> 't pydict"
  word_embeddings_state_dict :: "string \<Rightarrow> bool \<Rightarrow> 't pydict"
  output_layer_weight :: 't
  shared_embedding_or_output_weight :: 't

text \<open>
  Lines 154-155: \<open>for key in list(moe.keys()): state_dict_[key] = moe.pop(key)\<close>.
  The source's \<open>state_dict_\<close> is \<open>top_state_dict\<close> here.
\<close>

fun hoist_loop ::
  "string list \<Rightarrow> 't pydict \<Rightarrow> 't pydict \<Rightarrow> error + ('t pydict \<times> 't pydict)" where
  "hoist_loop [] top_state_dict moe = Inr (top_state_dict, moe)"
| "hoist_loop (key # keys) top_state_dict moe =
     (case map_of moe key of
        None \<Rightarrow> Inl KeyError
      | Some v \<Rightarrow> hoist_loop keys (AList.update key v top_state_dict) (AList.delete key moe))"

definition state_dict_for_save_checkpoint ::
  "'t ChatGLM3Model \<Rightarrow> string \<Rightarrow> bool \<Rightarrow> error + 't pydict" where
  "state_dict_for_save_checkpoint m prefix keep_vars =
     (let top_state_dict = [];
          language_model_state_dict =
            language_model_state_dict_for_save_checkpoint m prefix keep_vars
      in case (if has_key ''moe_state_dict'' language_model_state_dict then
                 (case map_of language_model_state_dict ''moe_state_dict'' of
                    Some (Dict moe) \<Rightarrow>
                      (case hoist_loop (map fst moe) top_state_dict moe of
                         Inl e \<Rightarrow> Inl e
                       | Inr (top_state_dict, moe') \<Rightarrow>
                           Inr (top_state_dict,
                                AList.delete ''moe_state_dict'' language_model_state_dict))
                  | _ \<Rightarrow> Inl AttributeError)
               else Inr (top_state_dict, language_model_state_dict)) of
           Inl e \<Rightarrow> Inl e
         | Inr (top_state_dict, language_model_state_dict) \<Rightarrow>
             (let top_state_dict =
                    AList.update language_model_key (Dict language_model_state_dict) top_state_dict;
                  top_state_dict =
                    (if post_process m \<and> \<not> pre_process m \<and>
                        \<not> untie_embeddings_and_output_weights m
                     then AList.update word_embeddings_for_head_key
                            (Dict (word_embeddings_state_dict m prefix keep_vars)) top_state_dict
                     else top_state_dict)
              in Inr top_state_dict))"

text \<open>
  Lines 174-176: the scan over the top-level keys that moves every
  expert-marked key, the gate weight apart, into \<open>moe_state_dict\<close>.
\<close>

definition expert_marked :: "string \<Rightarrow> bool" where
  "expert_marked key = (str_in ''expert'' key \<and> \<not> str_in ''moe.gate.wg.weight'' key)"

fun gather_loop ::
  "string list \<Rightarrow> 't pydict \<Rightarrow> 't pydict \<Rightarrow> error + ('t pydict \<times> 't pydict)" where
  "gather_loop [] state_dict moe_state_dict = Inr (state_dict, moe_state_dict)"
| "gather_loop (key # keys) state_dict moe_state_dict =
     (if str_in ''expert'' key \<and> \<not> str_in ''moe.gate.wg.weight'' key then
        (case map_of state_dict key of
           None \<Rightarrow> Inl KeyError
         | Some v \<Rightarrow>
             gather_loop keys (AList.delete key state_dict) (AList.update key v moe_state_dict))
      else gather_loop keys state_dict moe_state_dict)"

text \<open>
  What \<open>load_state_dict\<close> hands to its two collaborators: the argument of
  \<open>self.word_embeddings.load_state_dict\<close> when line 170 runs, and the argument
  of \<open>self.language_model.load_state_dict\<close>, each with the \<open>strict\<close> flag.
\<close>

record 't load_calls =
  word_embeddings_load :: "('t pyobj \<times> bool) option"
  language_model_load :: "'t pyobj \<times> bool"

definition load_state_dict ::
  "'t ChatGLM3Model \<Rightarrow> 't pydict \<Rightarrow> bool \<Rightarrow> error + 't load_calls" where
  "load_state_dict m state_dict strict =
     (case (if post_process m \<and> \<not> pre_process m \<and> \<not> untie_embeddings_and_output_weights m
            then (case map_of state_dict word_embeddings_for_head_key of
                    None \<Rightarrow> Inl KeyError
                  | Some v \<Rightarrow> Inr (Some (v, strict)))
            else Inr None) of
        Inl e \<Rightarrow> Inl e
      | Inr head_call \<Rightarrow>
          (case gather_loop (map fst state_dict) state_dict [] of
             Inl e \<Rightarrow> Inl e
           | Inr (state_dict, moe_state_dict) \<Rightarrow>
               (let state_dict =
                      (case map_of state_dict language_model_key of
                         Some inner \<Rightarrow> inner
                       | None \<Rightarrow> Dict state_dict)
                in case (if length moe_state_dict > 0 then
                           (case state_dict of
                              Dict d \<Rightarrow>
                                Inr (Dict (AList.update ''moe_state_dict''
                                             (Dict moe_state_dict) d))
                            | Tens t \<Rightarrow> Inl TypeError)
                         else Inr state_dict) of
                     Inl e \<Rightarrow> Inl e
                   | Inr state_dict \<Rightarrow>
                       Inr \<lparr>word_embeddings_load = head_call,
                            language_model_load = (state_dict, strict)\<rparr>)))"

text \<open>
  The entries of the inner dict's \<open>moe_state_dict\<close>, when it has
  one.
\<close>

definition moe_entries :: "'t pydict \<Rightarrow> 't pydict" where
  "moe_entries d = (case map_of d ''moe_state_dict'' of Some (Dict moe) \<Rightarrow> moe | _ \<Rightarrow> [])"

text \<open>
  The inner state dict lets lines 153-156 run: its \<open>moe_state_dict\<close>
  entry, if any, is a dict (with the distinct keys every Python dict has).
\<close>

definition hoistable :: "'t pydict \<Rightarrow> bool" where
  "hoistable d =
     (case map_of d ''moe_state_dict'' of
        None \<Rightarrow> True
      | Some (Dict moe) \<Rightarrow> distinct (map fst moe)
      | Some (Tens t) \<Rightarrow> False)"

text \<open>
  The spec's data model of the MoE sub-state: when the inner state dict has a
  \<open>moe_state_dict\<close> entry, it is a dict whose keys all carry the expert marker
  and are not gate weights. It may be empty.
\<close>

definition expert_state_ok :: "'t pydict \<Rightarrow> bool" where
  "expert_state_ok d =
     (case map_of d ''moe_state_dict'' of
        None \<Rightarrow> True
      | Some (Dict moe) \<Rightarrow>
          distinct (map fst moe) \<and> list_all (\<lambda>kv. expert_marked (fst kv)) moe
      | Some (Tens t) \<Rightarrow> False)"

text \<open>
  The parameter tree of a state dict: the tensor found by following a path of
  keys through the nested dicts, if there is one.
\<close>

fun param_at :: "'t pyobj \<Rightarrow> string list \<Rightarrow> 't option" where
  "param_at (Tens t) [] = Some t"
| "param_at (Tens t) (k # path) = None"
| "param_at (Dict d) [] = None"
| "param_at (Dict d) (k # path) =
     (case map_of d k of None \<Rightarrow> None | Some v \<Rightarrow> param_at v path)"

text \<open>The entry lines 159-162 add.\<close>

definition head_entry :: "'t ChatGLM3Model \<Rightarrow> string \<Rightarrow> bool \<Rightarrow> 't pydict" where
  "head_entry m prefix keep_vars =
     (if post_process m \<and> \<not> pre_process m \<and> \<not> untie_embeddings_and_output_weights m
      then [(word_embeddings_for_head_key, Dict (word_embeddings_state_dict m prefix keep_vars))]
      else [])"

text \<open>
  A checkpoint dict \<open>load_state_dict\<close> can unwrap: distinct keys,
  and no tensor under the language-model key.
\<close>

definition loadable :: "'t pydict \<Rightarrow> bool" where
  "loadable state_dict =
     (distinct (map fst state_dict) \<and>
      (case map_of state_dict language_model_key of Some (Tens t) \<Rightarrow> False | _ \<Rightarrow> True))"

text \<open>
  A concrete instance: the inner language model reports \<open>lm_state\<close>,
  the head word embedding one weight.
\<close>

definition example_model :: "bool \<Rightarrow> bool \<Rightarrow> bool \<Rightarrow> nat pydict \<Rightarrow> nat ChatGLM3Model" where
  "example_model pre post untie lm_state =
     \<lparr>parallel_output = True, pre_process = pre, post_process = post,
      fp16_lm_cross_entropy = False, return_moe_loss = True,
      untie_embeddings_and_output_weights = untie,
      language_model_state_dict_for_save_checkpoint = (\<lambda>prefix keep_vars. lm_state),
      word_embeddings_state_dict = (\<lambda>prefix keep_vars. [(''weight'', Tens 7)]),
      output_layer_weight = 8, shared_embedding_or_output_weight = 7\<rparr>"

text \<open>Two parameter names of an MoE layer: an expert weight and the gate weight.\<close>

definition expert_key :: string where
  "expert_key = ''encoder.layers.0.mlp.deepspeed_moe.experts.deepspeed_experts.0.dense_h_to_4h.weight''"

definition moe_lm_state :: "nat pydict" where
  "moe_lm_state = [(''encoder'', Tens 1), (''moe_state_dict'', Dict [(expert_key, Tens 2)])]"

definition empty_moe_lm_state :: "nat pydict" where
  "empty_moe_lm_state = [(''encoder'', Tens 1), (''moe_state_dict'', Dict [])]"

section \<open>Tensors of the array layer\<close>

text \<open>
  A tensor is a view on a storage buffer: the buffer's identity, the sizes and
  strides of the view, the element type, and the elements the view shows, in
  row-major order of the sizes. Nothing in this file writes into a tensor, so
  two tensors can only be told to share memory by their \<open>storage\<close>.
\<close>

datatype dtype = Half | BFloat16 | Float | Double | Long | Bool

record 'a tensor =
  storage :: nat
  sizes :: "nat list"
  strides :: "nat list"
  dtype :: dtype
  elems :: "'a list"

text \<open>
  All index tuples of a shape in row-major order, and the row-major position of
  one.
\<close>

fun indices :: "nat list \<Rightarrow> nat list list" where
  "indices [] = [[]]"
| "indices (n # ns) = concat (map (\<lambda>i. map (\<lambda>idx. i # idx) (indices ns)) [0..<n])"

fun lin :: "nat list \<Rightarrow> nat list \<Rightarrow> nat" where
  "lin (n # ns) (i # idx) = i * prod_list ns + lin ns idx"
| "lin ns idx = 0"

text \<open>
  \<open>Tensor.is_contiguous()\<close>: a tensor without elements is contiguous; otherwise
  every dimension of size other than 1 must have the stride of a dense
  row-major layout, the product of the later sizes. Dimensions of size 1 are
  not looked at.
\<close>

fun dense_strides :: "nat list \<Rightarrow> nat list \<Rightarrow> bool" where
  "dense_strides [] sts = True"
| "dense_strides (n # ns) [] = False"
| "dense_strides (n # ns) (st # sts) = ((n = 1 \<or> st = prod_list ns) \<and> dense_strides ns sts)"

definition is_contiguous :: "'a tensor \<Rightarrow> bool" where
  "is_contiguous t = (prod_list (sizes t) = 0 \<or> dense_strides (sizes t) (strides t))"

fun row_major_strides :: "nat list \<Rightarrow> nat list" where
  "row_major_strides [] = []"
| "row_major_strides (n # ns) = prod_list (map (max 1) ns) # row_major_strides ns"

text \<open>
  Basic slicing from the start of each dimension (\<open>t[:, :c]\<close>): a view on the
  same storage with the same strides and smaller sizes, showing the elements at
  the same index tuples.
\<close>

definition narrow :: "'a tensor \<Rightarrow> nat list \<Rightarrow> 'a tensor" where
  "narrow t ns = t\<lparr>sizes := ns, elems := map (\<lambda>idx. elems t ! lin (sizes t) idx) (indices ns)\<rparr>"

text \<open>
  The stop of a Python slice \<open>[:c]\<close> on a dimension of size
  \<open>n\<close>.
\<close>

definition slice_stop :: "int \<Rightarrow> nat \<Rightarrow> nat" where
  "slice_stop c n = (if c < 0 then nat (max (c + int n) 0) else min (nat c) n)"

text \<open>
  \<open>t[:, :c]\<close> and \<open>t[:, :, :c, :c]\<close>; too few dimensions
  is an \<open>IndexError\<close>.
\<close>

definition slice_dim1 :: "'a tensor \<Rightarrow> int \<Rightarrow> error + 'a tensor" where
  "slice_dim1 t c =
     (if length (sizes t) < 2 then Inl IndexError
      else Inr (narrow t ((sizes t)[1 := slice_stop c (sizes t ! 1)])))"

definition slice_dim2_dim3 :: "'a tensor \<Rightarrow> int \<Rightarrow> error + 'a tensor" where
  "slice_dim2_dim3 t c =
     (if length (sizes t) < 4 then Inl IndexError
      else Inr (narrow t ((sizes t)[2 := slice_stop c (sizes t ! 2),
                                     3 := slice_stop c (sizes t ! 3)])))"

text \<open>\<open>t.size()[1]\<close>.\<close>

definition size1 :: "'a tensor \<Rightarrow> error + nat" where
  "size1 t = (if length (sizes t) < 2 then Inl IndexError else Inr (sizes t ! 1))"

text \<open>
  \<open>t.transpose(0, 1)\<close>: a view with the first two sizes and strides exchanged,
  showing at \<open>(j, i, ...)\<close> the element \<open>t\<close> shows at \<open>(i, j, ...)\<close>.
\<close>

fun swap01 :: "'b list \<Rightarrow> 'b list" where
  "swap01 (x # y # rest) = y # x # rest"
| "swap01 xs = xs"

definition transpose01 :: "'a tensor \<Rightarrow> error + 'a tensor" where
  "transpose01 t =
     (if length (sizes t) < 2 then Inl IndexError
      else Inr (t\<lparr>sizes := swap01 (sizes t), strides := swap01 (strides t),
                  elems := map (\<lambda>idx. elems t ! lin (sizes t) (swap01 idx))
                             (indices (swap01 (sizes t)))\<rparr>))"

text \<open>
  \<open>t.view(-1)\<close>: one dimension over all elements, on the same storage. It
  exists when the dimensions of size other than 1 can be merged, each stride
  being the next size times the next stride; otherwise \<open>RuntimeError\<close>.
\<close>

fun mergeable :: "(nat \<times> nat) list \<Rightarrow> bool" where
  "mergeable ((n1, s1) # (n2, s2) # rest) = (s1 = n2 * s2 \<and> mergeable ((n2, s2) # rest))"
| "mergeable dims = True"

definition view_flat :: "'a tensor \<Rightarrow> error + 'a tensor" where
  "view_flat t =
     (if is_contiguous t then Inr (t\<lparr>sizes := [prod_list (sizes t)], strides := [1]\<rparr>)
      else if mergeable (filter (\<lambda>(n, st). n \<noteq> 1) (zip (sizes t) (strides t)))
      then Inr (t\<lparr>sizes := [prod_list (sizes t)],
                  strides := [snd (last (filter (\<lambda>(n, st). n \<noteq> 1) (zip (sizes t) (strides t))))]\<rparr>)
      else Inl RuntimeError)"

text \<open>
  \<open>a * b\<close> on two one-dimensional tensors, with broadcasting of a single
  element; the element product \<open>mul\<close> is the array layer's.
\<close>

definition broadcast_mul :: "('a \<Rightarrow> 'a \<Rightarrow> 'a) \<Rightarrow> 'a list \<Rightarrow> 'a list \<Rightarrow> error + 'a list" where
  "broadcast_mul mul xs ys =
     (if length xs = length ys then Inr (map2 mul xs ys)
      else if length xs = 1 then Inr (map (mul (hd xs)) ys)
      else if length ys = 1 then Inr (map (\<lambda>x. mul x (hd ys)) xs)
      else Inl RuntimeError)"

section \<open>The runtime around the model\<close>

text \<open>
  The keyword arguments the inner language model is called with (lines
  128-135). The retriever inputs and \<open>inference_params\<close> are passed through
  untouched.
\<close>

record 'a language_model_inputs =
  lm_input_ids :: "'a tensor"
  lm_position_ids :: "'a tensor"
  lm_attention_mask :: "'a tensor"
  lm_retriever_input_ids :: "'a tensor option"
  lm_retriever_position_ids :: "'a tensor option"
  lm_retriever_attn_mask :: "'a tensor option"
  lm_inference_params :: "nat option"

text \<open>The calls to collaborators, in the order they are made.\<close>

datatype 'a call =
    ParallelLmLogits "'a tensor" "'a tensor" bool
  | VocabSequenceParallelCrossEntropy "'a tensor" "'a tensor"
  | VocabParallelCrossEntropy "'a tensor" "'a tensor"
  | LanguageModel "'a language_model_inputs"

text \<open>
  The collaborators and runtime facts the file reads: the sequence-parallel
  world size of \<open>mpu\<close>, the projection and the two cross-entropy algorithms,
  the inner language model, the read-only fields of \<open>get_args()\<close>, and the
  element arithmetic of the array layer (product, sum of all elements, true
  division).
\<close>

record 'a runtime =
  get_sequence_parallel_world_size :: int
  parallel_lm_logits :: "'a tensor \<Rightarrow> 'a tensor \<Rightarrow> bool \<Rightarrow> 'a tensor"
  vocab_sequence_parallel_cross_entropy :: "'a tensor \<Rightarrow> 'a tensor \<Rightarrow> 'a tensor"
  vocab_parallel_cross_entropy :: "'a tensor \<Rightarrow> 'a tensor \<Rightarrow> 'a tensor"
  language_model :: "'a language_model_inputs \<Rightarrow> 'a tensor \<times> 'a tensor list"
  args_curriculum_learning_legacy :: bool
  args_seq_length :: int
  elem_mul :: "'a \<Rightarrow> 'a \<Rightarrow> 'a"
  elem_sum :: "'a list \<Rightarrow> 'a"
  elem_div :: "'a \<Rightarrow> 'a \<Rightarrow> 'a"

text \<open>
  What a call changes: the next unused storage, the process-wide
  \<open>args.curriculum_seqlen\<close>, and the record of collaborator calls.
\<close>

record 'a state =
  next_storage :: nat
  args_curriculum_seqlen :: "int option"
  calls :: "'a call list"

type_synonym ('a, 'r) run = "'a state \<Rightarrow> (error + 'r) \<times> 'a state"

definition ret :: "'r \<Rightarrow> ('a, 'r) run" where
  "ret x = (\<lambda>s. (Inr x, s))"

definition lift :: "error + 'r \<Rightarrow> ('a, 'r) run" where
  "lift r = (\<lambda>s. (r, s))"

definition bind :: "('a, 'r) run \<Rightarrow> ('r \<Rightarrow> ('a, 'q) run) \<Rightarrow> ('a, 'q) run" where
  "bind f g = (\<lambda>s. case f s of (Inl e, s') \<Rightarrow> (Inl e, s') | (Inr x, s') \<Rightarrow> g x s')"

text \<open>\<open>assert cond\<close>.\<close>

definition assert :: "bool \<Rightarrow> ('a, unit) run" where
  "assert cond = (\<lambda>s. (if cond then Inr () else Inl AssertionError, s))"

text \<open>
  \<open>t.contiguous()\<close> returns \<open>t\<close> itself when it is contiguous, and otherwise a
  copy in fresh storage with row-major strides.
\<close>

definition contiguous :: "'a tensor \<Rightarrow> ('a, 'a tensor) run" where
  "contiguous t =
     (\<lambda>s. if is_contiguous t then (Inr t, s)
          else (Inr (t\<lparr>storage := next_storage s, strides := row_major_strides (sizes t)\<rparr>),
                s\<lparr>next_storage := Suc (next_storage s)\<rparr>))"

text \<open>
  \<open>t.float()\<close> returns \<open>t\<close> itself when it is float32, and otherwise a float32
  copy in fresh storage.
\<close>

definition to_float :: "'a tensor \<Rightarrow> ('a, 'a tensor) run" where
  "to_float t =
     (\<lambda>s. if dtype t = Float then (Inr t, s)
          else (Inr (t\<lparr>storage := next_storage s, strides := row_major_strides (sizes t),
                       dtype := Float\<rparr>),
                s\<lparr>next_storage := Suc (next_storage s)\<rparr>))"

definition call_parallel_lm_logits ::
  "'a runtime \<Rightarrow> 'a tensor \<Rightarrow> 'a tensor \<Rightarrow> bool \<Rightarrow> ('a, 'a tensor) run" where
  "call_parallel_lm_logits rt lm_output word_embeddings_weight parallel_out =
     (\<lambda>s. (Inr (parallel_lm_logits rt lm_output word_embeddings_weight parallel_out),
           s\<lparr>calls := calls s @ [ParallelLmLogits lm_output word_embeddings_weight parallel_out]\<rparr>))"

section \<open>post\_language\_model\_processing (lines 39-65)\<close>

definition call_vocab_sequence_parallel_cross_entropy ::
  "'a runtime \<Rightarrow> 'a tensor \<Rightarrow> 'a tensor \<Rightarrow> ('a, 'a tensor) run" where
  "call_vocab_sequence_parallel_cross_entropy rt logits target =
     (\<lambda>s. (Inr (vocab_sequence_parallel_cross_entropy rt logits target),
           s\<lparr>calls := calls s @ [VocabSequenceParallelCrossEntropy logits target]\<rparr>))"

definition call_vocab_parallel_cross_entropy ::
  "'a runtime \<Rightarrow> 'a tensor \<Rightarrow> 'a tensor \<Rightarrow> ('a, 'a tensor) run" where
  "call_vocab_parallel_cross_entropy rt logits target =
     (\<lambda>s. (Inr (vocab_parallel_cross_entropy rt logits target),
           s\<lparr>calls := calls s @ [VocabParallelCrossEntropy logits target]\<rparr>))"

definition call_language_model ::
  "'a runtime \<Rightarrow> 'a language_model_inputs \<Rightarrow> ('a, 'a tensor \<times> 'a tensor list) run" where
  "call_language_model rt inputs =
     (\<lambda>s. (Inr (language_model rt inputs), s\<lparr>calls := calls s @ [LanguageModel inputs]\<rparr>))"

definition post_language_model_processing ::
  "'a runtime \<Rightarrow> 'a tensor \<Rightarrow> 'a tensor option \<Rightarrow> 'a tensor \<Rightarrow> bool \<Rightarrow> bool \<Rightarrow>
   ('a, 'a tensor) run" where
  "post_language_model_processing rt lm_output labels logit_weights parallel_out fp16 =
     bind (call_parallel_lm_logits rt lm_output logit_weights parallel_out) (\<lambda>output.
       case labels of
         None \<Rightarrow> bind (lift (transpose01 output)) contiguous
       | Some labels \<Rightarrow>
           bind (bind (lift (transpose01 labels)) contiguous) (\<lambda>labels.
             let cross_entropy =
                   (if get_sequence_parallel_world_size rt > 1
                    then call_vocab_sequence_parallel_cross_entropy rt
                    else call_vocab_parallel_cross_entropy rt)
             in bind (if fp16 then
                        bind (assert (dtype output = Half)) (\<lambda>u. cross_entropy output labels)
                      else
                        bind (to_float output) (\<lambda>output_float. cross_entropy output_float labels))
                  (\<lambda>loss. bind (lift (transpose01 loss)) contiguous)))"

section \<open>ChatGLM3Model.forward (lines 104-144)\<close>

text \<open>The values \<open>forward\<close> can put in its result tuple.\<close>

datatype 'a pyval =
    TensorV "'a tensor"
  | ListV "'a tensor list"
  | TupleV "'a pyval list"

text \<open>
  Lines 111-126: the seqlen-based curriculum. The result is the four inputs
  the rest of \<open>forward\<close> goes on with.
\<close>

definition curriculum_truncation ::
  "'a runtime \<Rightarrow> 'a tensor \<Rightarrow> 'a tensor \<Rightarrow> 'a tensor \<Rightarrow> 'a tensor option \<Rightarrow> int option \<Rightarrow>
   ('a, 'a tensor \<times> 'a tensor \<times> 'a tensor option \<times> 'a tensor) run" where
  "curriculum_truncation rt input_ids position_ids attention_mask labels curriculum_seqlen =
     (case curriculum_seqlen of
        Some c \<Rightarrow>
          bind (\<lambda>s. (Inr (), s\<lparr>args_curriculum_seqlen := Some c\<rparr>)) (\<lambda>u.
          bind (lift (size1 input_ids)) (\<lambda>seqlen.
            if c < int seqlen then
              bind (bind (lift (slice_dim1 input_ids c)) contiguous) (\<lambda>input_ids.
              bind (bind (lift (slice_dim1 position_ids c)) contiguous) (\<lambda>position_ids.
              bind (case labels of
                      None \<Rightarrow> ret None
                    | Some labels \<Rightarrow>
                        bind (bind (lift (slice_dim1 labels c)) contiguous)
                          (\<lambda>labels. ret (Some labels))) (\<lambda>labels.
              bind (bind (lift (slice_dim2_dim3 attention_mask c)) contiguous) (\<lambda>attention_mask.
                ret (input_ids, position_ids, labels, attention_mask)))))
            else ret (input_ids, position_ids, labels, attention_mask)))
      | None \<Rightarrow>
          (if args_curriculum_learning_legacy rt then
             bind (\<lambda>s. (Inr (), s\<lparr>args_curriculum_seqlen := Some (args_seq_length rt)\<rparr>))
               (\<lambda>u. ret (input_ids, position_ids, labels, attention_mask))
           else ret (input_ids, position_ids, labels, attention_mask)))"

text \<open>
  Line 144 is \<open>return lm_output, moe_losses if self.return_moe_loss else lm_output\<close>:
  the conditional expression binds tighter than the comma, so the result is
  always a pair whose second component is chosen by the flag.
\<close>

definition forward ::
  "'a tensor ChatGLM3Model \<Rightarrow> 'a runtime \<Rightarrow> 'a tensor \<Rightarrow> 'a tensor \<Rightarrow> 'a tensor \<Rightarrow>
   'a tensor option \<Rightarrow> 'a tensor option \<Rightarrow> 'a tensor option \<Rightarrow>
   'a tensor option \<Rightarrow> 'a tensor option \<Rightarrow> nat option \<Rightarrow> int option \<Rightarrow> ('a, 'a pyval) run" where
  "forward self rt input_ids position_ids attention_mask
     retriever_input_ids retriever_position_ids retriever_attn_mask
     labels tokentype_ids inference_params curriculum_seqlen =
     bind (curriculum_truncation rt input_ids position_ids attention_mask labels curriculum_seqlen)
       (\<lambda>(input_ids, position_ids, labels, attention_mask).
     bind (call_language_model rt
             \<lparr>lm_input_ids = input_ids, lm_position_ids = position_ids,
              lm_attention_mask = attention_mask,
              lm_retriever_input_ids = retriever_input_ids,
              lm_retriever_position_ids = retriever_position_ids,
              lm_retriever_attn_mask = retriever_attn_mask,
              lm_inference_params = inference_params\<rparr>)
       (\<lambda>(lm_output, moe_losses).
     bind (if post_process self then
             post_language_model_processing rt lm_output labels
               (if untie_embeddings_and_output_weights self then output_layer_weight self
                else shared_embedding_or_output_weight self)
               (parallel_output self) (fp16_lm_cross_entropy self)
           else ret lm_output)
       (\<lambda>lm_output.
     ret (TupleV [TensorV lm_output,
                  if return_moe_loss self then ListV moe_losses else TensorV lm_output]))))"

section \<open>CrossEntropy (lines 212-224)\<close>

definition CrossEntropy :: "'a runtime \<Rightarrow> 'a tensor \<Rightarrow> 'a tensor list \<Rightarrow> ('a, 'a) run" where
  "CrossEntropy rt output labels =
     (case labels of
        labels # loss_mask # others \<Rightarrow>
          bind (bind (lift (transpose01 labels)) contiguous) (\<lambda>labels.
          bind (bind (bind (contiguous output) to_float)
                  (\<lambda>logits. call_vocab_parallel_cross_entropy rt logits labels)) (\<lambda>losses.
          bind (bind (lift (transpose01 losses)) contiguous) (\<lambda>losses.
          bind (lift (view_flat loss_mask)) (\<lambda>loss_mask.
          bind (lift (view_flat losses)) (\<lambda>losses_flat.
          bind (lift (broadcast_mul (elem_mul rt) (elems losses_flat) (elems loss_mask)))
            (\<lambda>products.
              ret (elem_div rt (elem_sum rt products) (elem_sum rt (elems loss_mask)))))))))
      | short \<Rightarrow> lift (Inl IndexError))"

section \<open>Notions used in the results, and concrete inputs\<close>

text \<open>The algorithm line 55 selects, and the record its call leaves.\<close>

definition selected_cross_entropy :: "'a runtime \<Rightarrow> 'a tensor \<Rightarrow> 'a tensor \<Rightarrow> 'a tensor" where
  "selected_cross_entropy rt =
     (if get_sequence_parallel_world_size rt > 1 then vocab_sequence_parallel_cross_entropy rt
      else vocab_parallel_cross_entropy rt)"

definition selected_call :: "'a runtime \<Rightarrow> 'a tensor \<Rightarrow> 'a tensor \<Rightarrow> 'a call" where
  "selected_call rt =
     (if get_sequence_parallel_world_size rt > 1 then VocabSequenceParallelCrossEntropy
      else VocabParallelCrossEntropy)"

text \<open>
  The calls a run added to the record, and whether one of them is a given
  algorithm.
\<close>

definition new_calls :: "'a state \<Rightarrow> 'a state \<Rightarrow> 'a call list" where
  "new_calls before after = drop (length (calls before)) (calls after)"

definition invoked_sequence_parallel :: "'a call list \<Rightarrow> bool" where
  "invoked_sequence_parallel cs =
     list_ex (\<lambda>c. case c of VocabSequenceParallelCrossEntropy a b \<Rightarrow> True | _ \<Rightarrow> False) cs"

definition invoked_tensor_parallel :: "'a call list \<Rightarrow> bool" where
  "invoked_tensor_parallel cs =
     list_ex (\<lambda>c. case c of VocabParallelCrossEntropy a b \<Rightarrow> True | _ \<Rightarrow> False) cs"

text \<open>
  Floating-point values for the degenerate cases of the division: finite
  values (rounding left out), the two infinities (\<open>Inf True\<close> the positive
  one) and NaN, with the product, sum and true division of IEEE 754 on them.
\<close>

datatype fval = Fin real | Inf bool | NaN

fun fmul :: "fval \<Rightarrow> fval \<Rightarrow> fval" where
  "fmul (Fin x) (Fin y) = Fin (x * y)"
| "fmul (Fin x) (Inf p) = (if x = 0 then NaN else Inf (p = (0 < x)))"
| "fmul (Inf p) (Fin y) = (if y = 0 then NaN else Inf (p = (0 < y)))"
| "fmul (Inf p) (Inf q) = Inf (p = q)"
| "fmul NaN y = NaN"
| "fmul x NaN = NaN"

fun fadd :: "fval \<Rightarrow> fval \<Rightarrow> fval" where
  "fadd (Fin x) (Fin y) = Fin (x + y)"
| "fadd (Fin x) (Inf p) = Inf p"
| "fadd (Inf p) (Fin y) = Inf p"
| "fadd (Inf p) (Inf q) = (if p = q then Inf p else NaN)"
| "fadd NaN y = NaN"
| "fadd x NaN = NaN"

fun fdiv :: "fval \<Rightarrow> fval \<Rightarrow> fval" where
  "fdiv (Fin x) (Fin y) =
     (if y = 0 then (if x = 0 then NaN else Inf (0 < x)) else Fin (x / y))"
| "fdiv (Fin x) (Inf p) = Fin 0"
| "fdiv (Inf p) (Fin y) = Inf (p = (0 \<le> y))"
| "fdiv (Inf p) (Inf q) = NaN"
| "fdiv NaN y = NaN"
| "fdiv x NaN = NaN"

definition fsum :: "fval list \<Rightarrow> fval" where
  "fsum xs = foldl fadd (Fin 0) xs"

text \<open>
  \<open>t'\<close> shows the elements of \<open>t\<close> at the index tuples of the smaller shape
  \<open>ns\<close>, is contiguous, and is either the slice view itself, on the storage of
  \<open>t\<close> (when that view is already contiguous), or a copy in storage that was
  unused before \<open>fresh\<close>.
\<close>

definition truncated_to :: "nat \<Rightarrow> 'a tensor \<Rightarrow> nat list \<Rightarrow> 'a tensor \<Rightarrow> bool" where
  "truncated_to fresh t ns t' =
     (sizes t' = ns \<and> dtype t' = dtype t \<and> is_contiguous t' \<and>
      list_all (\<lambda>idx. elems t' ! lin ns idx = elems t ! lin (sizes t) idx) (indices ns) \<and>
      (if is_contiguous (narrow t ns) then t' = narrow t ns \<and> storage t' = storage t
       else fresh \<le> storage t'))"

text \<open>
  Concrete tensors, collaborators and a start state for evaluating the
  functions.
\<close>

definition example_tensor :: "nat \<Rightarrow> nat list \<Rightarrow> dtype \<Rightarrow> fval list \<Rightarrow> fval tensor" where
  "example_tensor st sz dt xs =
     \<lparr>storage = st, sizes = sz, strides = row_major_strides sz, dtype = dt, elems = xs\<rparr>"

definition example_runtime :: "int \<Rightarrow> dtype \<Rightarrow> fval runtime" where
  "example_runtime world_size logits_dtype =
     \<lparr>get_sequence_parallel_world_size = world_size,
      parallel_lm_logits = (\<lambda>h w po.
         example_tensor 100 [sizes h ! 0, sizes h ! 1, sizes w ! 0] logits_dtype
           (replicate (sizes h ! 0 * sizes h ! 1 * sizes w ! 0) (Fin 0))),
      vocab_sequence_parallel_cross_entropy = (\<lambda>logits target.
         example_tensor 101 (sizes target) Float (map (\<lambda>x. Fin 1) (elems target))),
      vocab_parallel_cross_entropy = (\<lambda>logits target.
         example_tensor 102 (sizes target) Float (map (\<lambda>x. Fin 2) (elems target))),
      language_model = (\<lambda>inputs.
         (example_tensor 103 [sizes (lm_input_ids inputs) ! 1, sizes (lm_input_ids inputs) ! 0, 1]
            logits_dtype
            (replicate (sizes (lm_input_ids inputs) ! 1 * sizes (lm_input_ids inputs) ! 0) (Fin 0)),
          [])),
      args_curriculum_learning_legacy = False,
      args_seq_length = 4,
      elem_mul = fmul, elem_sum = fsum, elem_div = fdiv\<rparr>"

definition example_state :: "fval state" where
  "example_state = \<lparr>next_storage = 200, args_curriculum_seqlen = None, calls = []\<rparr>"

definition example_hidden :: "fval tensor" where
  "example_hidden = example_tensor 1 [2, 1, 1] Half [Fin 0, Fin 0]"

definition example_weight :: "fval tensor" where
  "example_weight = example_tensor 2 [3, 1] Half [Fin 0, Fin 0, Fin 0]"

definition example_labels :: "fval tensor" where
  "example_labels = example_tensor 3 [1, 2] Long [Fin 1, Fin 2]"

definition example_zero_mask :: "fval tensor" where
  "example_zero_mask = example_tensor 4 [1, 2] Float [Fin 0, Fin 0]"

definition example_logits :: "fval tensor" where
  "example_logits = example_tensor 5 [2, 1, 3] Half (replicate 6 (Fin 0))"

text \<open>A batch of one sequence of four tokens, and a batch of two.\<close>

definition example_ids :: "nat \<Rightarrow> nat \<Rightarrow> fval tensor" where
  "example_ids st batch = example_tensor st [batch, 4] Long (map (\<lambda>i. Fin (real i)) [0..<batch * 4])"

definition example_attention_mask :: "fval tensor" where
  "example_attention_mask = example_tensor 13 [1, 1, 4, 4] Bool (map (\<lambda>i. Fin (real i)) [0..<16])"

definition example_instance :: "bool \<Rightarrow> fval tensor ChatGLM3Model" where
  "example_instance moe =
     \<lparr>parallel_output = True, pre_process = True, post_process = True,
      fp16_lm_cross_entropy = False, return_moe_loss = moe,
      untie_embeddings_and_output_weights = False,
      language_model_state_dict_for_save_checkpoint = (\<lambda>prefix keep_vars. []),
      word_embeddings_state_dict = (\<lambda>prefix keep_vars. []),
      output_layer_weight = example_weight,
      shared_embedding_or_output_weight = example_weight\<rparr>"

section \<open>Results about universal\_checkpoint\_info\<close>

text \<open>
  C9. Without universal-checkpoint support the result is the empty mapping.
  With it, and the three category keys pairwise different, the result has
  exactly these three keys, in this order, bound to the literal lists: one
  vocabulary pattern, nine tensor-parallel-replicated patterns, two
  row-parallelism patterns. The function is a total function of the static
  configuration alone, so it has no effect on any state.
\<close>

theorem universal_checkpoint_info_table:
  "(\<not> DS_UNIVERSAL_CHECKPOINT_INFO ds \<longrightarrow> universal_checkpoint_info ds = []) \<and>
   (DS_UNIVERSAL_CHECKPOINT_INFO ds \<and>
    distinct [VOCABULARY_PARAMETER_PATTERNS ds, TP_REPLICATED_PARAMETER_PATTERNS ds,
              PARAMETER_WITH_ROW_PARALLELISM_PATTERNS ds] \<longrightarrow>
      universal_checkpoint_info ds =
        [(VOCABULARY_PARAMETER_PATTERNS ds,
            [''tied_modules.embed.word_embeddings.weight'']),
         (TP_REPLICATED_PARAMETER_PATTERNS ds,
            [''tied_modules.embed.position_embeddings.weight'',
             CHR 0x5C # ''d+.input_layernorm.weight'',
             CHR 0x5C # ''d+.input_layernorm.bias'',
             CHR 0x5C # ''d+.post_attention_layernorm.weight'',
             CHR 0x5C # ''d+.post_attention_layernorm.bias'',
             CHR 0x5C # ''d+.self_attention.dense.bias'',
             CHR 0x5C # ''d+.mlp.dense_4h_to_h.bias'',
             CHR 0x5C # ''d+.weight'',
             CHR 0x5C # ''d+.bias'']),
         (PARAMETER_WITH_ROW_PARALLELISM_PATTERNS ds,
            [CHR 0x5C # ''d+.mlp.dense_4h_to_h.weight'',
             CHR 0x5C # ''d+.self_attention.dense.weight''])] \<and>
      length (universal_checkpoint_info ds) = 3 \<and>
      length vocabulary_patterns = 1 \<and>
      length tp_replicated_patterns = 9 \<and>
      length row_parallelism_patterns = 2)"
  by (auto simp: universal_checkpoint_info_def vocabulary_patterns_def
        tp_replicated_patterns_def row_parallelism_patterns_def layer_prefix_def)

theorem universal_checkpoint_info_table_witness:
  "universal_checkpoint_info (deepspeed_constants False) = [] \<and>
   map fst (universal_checkpoint_info (deepspeed_constants True)) =
     [''vocabulary_parameter_patterns'', ''tp_replicated_parameter_patterns'',
      ''parameter_with_row_parallelism_patterns''] \<and>
   map (length \<circ> snd) (universal_checkpoint_info (deepspeed_constants True)) = [1, 9, 2]"
  using universal_checkpoint_info_table [of "deepspeed_constants False"]
        universal_checkpoint_info_table [of "deepspeed_constants True"]
  by (simp add: deepspeed_constants_def)

section \<open>Results about the checkpoint state adapter\<close>

lemma update_fresh_key: "k \<notin> fst ` set al \<Longrightarrow> AList.update k v al = al @ [(k, v)]"
  by (induction al) auto

lemma hoist_loop_all:
  "distinct (map fst (sd @ xs)) \<Longrightarrow> hoist_loop (map fst xs) sd xs = Inr (sd @ xs, [])"
proof (induction xs arbitrary: sd)
  case Nil
  then show ?case by simp
next
  case (Cons x xs)
  obtain k v where x: "x = (k, v)" by (cases x)
  from Cons.prems x have fresh: "k \<notin> fst ` set sd" and kxs: "k \<notin> fst ` set xs"
    by auto
  from Cons.prems x have d: "distinct (map fst ((sd @ [(k, v)]) @ xs))" by auto
  have "hoist_loop (map fst (x # xs)) sd (x # xs) = hoist_loop (map fst xs) (sd @ [(k, v)]) xs"
    using fresh kxs by (simp add: x update_fresh_key AList.delete_id)
  also have "\<dots> = Inr ((sd @ [(k, v)]) @ xs, [])" by (rule Cons.IH [OF d])
  finally show ?case by (simp add: x)
qed

lemma map_of_append_fresh:
  "k \<notin> fst ` set ys \<Longrightarrow> map_of (ys @ xs) k = map_of xs k"
  by (induction ys) auto

lemma delete_append_fresh:
  "k \<notin> fst ` set ys \<Longrightarrow> AList.delete k (ys @ xs) = ys @ AList.delete k xs"
  by (induction ys) auto

lemma gather_loop_split:
  "distinct (map fst (ys @ xs)) \<Longrightarrow> fst ` set moe \<inter> fst ` set xs = {} \<Longrightarrow>
   gather_loop (map fst xs) (ys @ xs) moe =
     Inr (ys @ filter (\<lambda>kv. \<not> expert_marked (fst kv)) xs,
          moe @ filter (\<lambda>kv. expert_marked (fst kv)) xs)"
proof (induction xs arbitrary: ys moe)
  case Nil
  then show ?case by simp
next
  case (Cons x xs)
  obtain k v where x: "x = (k, v)" by (cases x)
  from Cons.prems x have kys: "k \<notin> fst ` set ys" and kxs: "k \<notin> fst ` set xs"
    and kmoe: "k \<notin> fst ` set moe" by auto
  show ?case
  proof (cases "expert_marked k")
    case True
    have d: "distinct (map fst (ys @ xs))" using Cons.prems(1) by auto
    have m: "fst ` set (moe @ [(k, v)]) \<inter> fst ` set xs = {}"
      using Cons.prems(2) kxs by auto
    have "gather_loop (map fst (x # xs)) (ys @ x # xs) moe =
          gather_loop (map fst xs) (ys @ xs) (moe @ [(k, v)])"
    proof -
      have a: "map_of (ys @ (k, v) # xs) k = Some v"
        using map_of_append_fresh [OF kys, of "(k, v) # xs"] by simp
      have b: "AList.delete k (ys @ (k, v) # xs) = ys @ xs"
        using kys kxs by (simp add: delete_append_fresh AList.delete_id)
      have c: "AList.update k v moe = moe @ [(k, v)]"
        using kmoe by (rule update_fresh_key)
      have e: "str_in ''expert'' k \<and> \<not> str_in ''moe.gate.wg.weight'' k"
        using True by (simp add: expert_marked_def)
      show ?thesis
        unfolding x list.map fst_conv gather_loop.simps using e
        by (simp only: a b c option.case) simp
    qed
    also have "\<dots> = Inr (ys @ filter (\<lambda>kv. \<not> expert_marked (fst kv)) xs,
          (moe @ [(k, v)]) @ filter (\<lambda>kv. expert_marked (fst kv)) xs)"
      by (rule Cons.IH [OF d m])
    finally show ?thesis using True by (simp add: x)
  next
    case False
    have d: "distinct (map fst ((ys @ [(k, v)]) @ xs))" using Cons.prems(1) x by auto
    have m: "fst ` set moe \<inter> fst ` set xs = {}" using Cons.prems(2) by auto
    have "gather_loop (map fst (x # xs)) (ys @ x # xs) moe =
          gather_loop (map fst xs) ((ys @ [(k, v)]) @ xs) moe"
      using False by (auto simp: x expert_marked_def)
    also have "\<dots> = Inr ((ys @ [(k, v)]) @ filter (\<lambda>kv. \<not> expert_marked (fst kv)) xs,
          moe @ filter (\<lambda>kv. expert_marked (fst kv)) xs)"
      by (rule Cons.IH [OF d m])
    finally show ?thesis using False by (simp add: x)
  qed
qed

lemma gather_loop_dict:
  "distinct (map fst sd) \<Longrightarrow>
   gather_loop (map fst sd) sd [] =
     Inr (filter (\<lambda>kv. \<not> expert_marked (fst kv)) sd, filter (\<lambda>kv. expert_marked (fst kv)) sd)"
  using gather_loop_split [of "[]" sd "[]"] by simp

lemma keys_unmarked:
  "\<not> expert_marked language_model_key" "\<not> expert_marked word_embeddings_for_head_key"
  "language_model_key \<noteq> word_embeddings_for_head_key"
  by (simp_all add: expert_marked_def language_model_key_def word_embeddings_for_head_key_def)

lemma save_value:
  assumes h: "hoistable (language_model_state_dict_for_save_checkpoint m prefix keep_vars)"
    and l: "language_model_key \<notin> fst ` set (moe_entries (language_model_state_dict_for_save_checkpoint m prefix keep_vars))"
    and w: "word_embeddings_for_head_key \<notin> fst ` set (moe_entries (language_model_state_dict_for_save_checkpoint m prefix keep_vars))"
  shows "state_dict_for_save_checkpoint m prefix keep_vars =
     Inr (moe_entries (language_model_state_dict_for_save_checkpoint m prefix keep_vars) @
          [(language_model_key,
            Dict (AList.delete ''moe_state_dict''
                   (language_model_state_dict_for_save_checkpoint m prefix keep_vars)))] @
          head_entry m prefix keep_vars)"
proof -
  define d where "d = language_model_state_dict_for_save_checkpoint m prefix keep_vars"
  have u1: "AList.update language_model_key v (moe_entries d) =
            moe_entries d @ [(language_model_key, v)]" for v
    using l by (simp add: update_fresh_key d_def)
  have u2: "AList.update word_embeddings_for_head_key v (moe_entries d @ [(language_model_key, x)]) =
            moe_entries d @ [(language_model_key, x)] @ [(word_embeddings_for_head_key, v)]" for v x
    using w keys_unmarked(3) by (simp add: update_fresh_key d_def)
  show ?thesis
  proof (cases "map_of d ''moe_state_dict''")
    case None
    then have me: "moe_entries d = []" by (simp add: moe_entries_def)
    have del: "AList.delete ''moe_state_dict'' d = d"
      using None by (simp add: AList.delete_id map_of_eq_None_iff)
    show ?thesis
      using None u2 [of _ "Dict d"]
      unfolding state_dict_for_save_checkpoint_def d_def [symmetric]
      by (simp add: has_key_def me del head_entry_def Let_def d_def [symmetric])
  next
    case (Some v)
    with h obtain moe where v: "v = Dict moe" and dm: "distinct (map fst moe)"
      by (cases v) (auto simp: hoistable_def d_def [symmetric])
    have me: "moe_entries d = moe" using Some v by (simp add: moe_entries_def)
    have hl: "hoist_loop (map fst moe) [] moe = Inr (moe, [])"
      using hoist_loop_all [of "[]" moe] dm by simp
    show ?thesis
      using Some v u1 u2 [of _ "Dict (AList.delete ''moe_state_dict'' d)"]
      unfolding state_dict_for_save_checkpoint_def d_def [symmetric]
      by (simp add: has_key_def me hl head_entry_def Let_def d_def [symmetric])
  qed
qed

lemma map_of_filter_key:
  "P k \<Longrightarrow> map_of (filter (\<lambda>kv. P (fst kv)) xs) k = map_of xs k"
  by (induction xs) auto

lemma load_value:
  assumes "distinct (map fst sd)"
  shows "load_state_dict m sd strict =
     (if post_process m \<and> \<not> pre_process m \<and> \<not> untie_embeddings_and_output_weights m \<and>
         map_of sd word_embeddings_for_head_key = None
      then Inl KeyError
      else case (case map_of sd language_model_key of
                   Some inner \<Rightarrow> inner
                 | None \<Rightarrow> Dict (filter (\<lambda>kv. \<not> expert_marked (fst kv)) sd)) of
             Dict d \<Rightarrow>
               Inr \<lparr>word_embeddings_load =
                      (if post_process m \<and> \<not> pre_process m \<and>
                          \<not> untie_embeddings_and_output_weights m
                       then map_option (\<lambda>v. (v, strict)) (map_of sd word_embeddings_for_head_key)
                       else None),
                    language_model_load =
                      (if filter (\<lambda>kv. expert_marked (fst kv)) sd = [] then Dict d
                       else Dict (AList.update ''moe_state_dict''
                                   (Dict (filter (\<lambda>kv. expert_marked (fst kv)) sd)) d),
                       strict)\<rparr>
           | Tens t \<Rightarrow>
               (if filter (\<lambda>kv. expert_marked (fst kv)) sd = []
                then Inr \<lparr>word_embeddings_load =
                      (if post_process m \<and> \<not> pre_process m \<and>
                          \<not> untie_embeddings_and_output_weights m
                       then map_option (\<lambda>v. (v, strict)) (map_of sd word_embeddings_for_head_key)
                       else None),
                    language_model_load = (Tens t, strict)\<rparr>
                else Inl TypeError))"
proof -
  have lm: "map_of (filter (\<lambda>kv. \<not> expert_marked (fst kv)) sd) language_model_key =
            map_of sd language_model_key"
    using map_of_filter_key [of "\<lambda>k. \<not> expert_marked k" language_model_key sd] keys_unmarked(1)
    by simp
  show ?thesis
    unfolding load_state_dict_def gather_loop_dict [OF assms]
    by (simp add: lm Let_def split: option.splits pyobj.splits)
qed

lemma save_map:
  assumes h: "hoistable (language_model_state_dict_for_save_checkpoint m prefix keep_vars)"
  shows "\<exists>sd. state_dict_for_save_checkpoint m prefix keep_vars = Inr sd \<and>
     map_of sd word_embeddings_for_head_key =
       (if post_process m \<and> \<not> pre_process m \<and> \<not> untie_embeddings_and_output_weights m
        then Some (Dict (word_embeddings_state_dict m prefix keep_vars))
        else map_of (moe_entries (language_model_state_dict_for_save_checkpoint m prefix keep_vars))
               word_embeddings_for_head_key)"
proof -
  define d where "d = language_model_state_dict_for_save_checkpoint m prefix keep_vars"
  show ?thesis
  proof (cases "map_of d ''moe_state_dict''")
    case None
    then have me: "moe_entries d = []" by (simp add: moe_entries_def)
    show ?thesis
      using None keys_unmarked(3)
      unfolding state_dict_for_save_checkpoint_def d_def [symmetric]
      by (simp add: has_key_def me Let_def update_conv')
  next
    case (Some v)
    with h obtain moe where v: "v = Dict moe" and dm: "distinct (map fst moe)"
      by (cases v) (auto simp: hoistable_def d_def [symmetric])
    have me: "moe_entries d = moe" using Some v by (simp add: moe_entries_def)
    have hl: "hoist_loop (map fst moe) [] moe = Inr (moe, [])"
      using hoist_loop_all [of "[]" moe] dm by simp
    show ?thesis
      using Some v keys_unmarked(3)
      unfolding state_dict_for_save_checkpoint_def d_def [symmetric]
      by (simp add: has_key_def me hl Let_def update_conv')
  qed
qed

text \<open>
  C2 (amended). On the last pipeline stage that is not also the first
  (\<open>post_process\<close> true, \<open>pre_process\<close> false), the head word-embedding state
  is stored under \<open>word_embeddings_for_head\<close> by \<open>state_dict_for_save_checkpoint\<close>,
  and read from that key by \<open>load_state_dict\<close>, exactly when embeddings and
  output weights are tied (\<open>untie_embeddings_and_output_weights\<close> false): then
  the saved dict binds the key to the embedding's state, and the load passes
  the value under the key to the embedding (a \<open>KeyError\<close> when the key is
  missing). In every other case the save does not add the key and the load
  hands the embedding nothing.
\<close>

theorem head_embedding_key_written_and_read_iff_tied:
  assumes "hoistable (language_model_state_dict_for_save_checkpoint m prefix keep_vars)"
    and "\<not> has_key word_embeddings_for_head_key
            (moe_entries (language_model_state_dict_for_save_checkpoint m prefix keep_vars))"
    and "loadable state_dict"
  shows "(\<exists>sd. state_dict_for_save_checkpoint m prefix keep_vars = Inr sd \<and>
            (has_key word_embeddings_for_head_key sd \<longleftrightarrow>
               post_process m \<and> \<not> pre_process m \<and> \<not> untie_embeddings_and_output_weights m) \<and>
            (post_process m \<and> \<not> pre_process m \<and> \<not> untie_embeddings_and_output_weights m \<longrightarrow>
               map_of sd word_embeddings_for_head_key =
                 Some (Dict (word_embeddings_state_dict m prefix keep_vars)))) \<and>
         (post_process m \<and> \<not> pre_process m \<and> \<not> untie_embeddings_and_output_weights m \<and>
          \<not> has_key word_embeddings_for_head_key state_dict \<longrightarrow>
            load_state_dict m state_dict strict = Inl KeyError) \<and>
         ((post_process m \<and> \<not> pre_process m \<and> \<not> untie_embeddings_and_output_weights m \<longrightarrow>
             has_key word_embeddings_for_head_key state_dict) \<longrightarrow>
            (\<exists>calls. load_state_dict m state_dict strict = Inr calls \<and>
               word_embeddings_load calls =
                 (if post_process m \<and> \<not> pre_process m \<and>
                     \<not> untie_embeddings_and_output_weights m
                  then map_option (\<lambda>v. (v, strict))
                         (map_of state_dict word_embeddings_for_head_key)
                  else None)))"
proof (intro conjI)
  from save_map [OF assms(1)] assms(2)
  show "\<exists>sd. state_dict_for_save_checkpoint m prefix keep_vars = Inr sd \<and>
            (has_key word_embeddings_for_head_key sd \<longleftrightarrow>
               post_process m \<and> \<not> pre_process m \<and> \<not> untie_embeddings_and_output_weights m) \<and>
            (post_process m \<and> \<not> pre_process m \<and> \<not> untie_embeddings_and_output_weights m \<longrightarrow>
               map_of sd word_embeddings_for_head_key =
                 Some (Dict (word_embeddings_state_dict m prefix keep_vars)))"
    by (auto simp: has_key_def)
next
  have d: "distinct (map fst state_dict)" using assms(3) by (simp add: loadable_def)
  show "post_process m \<and> \<not> pre_process m \<and> \<not> untie_embeddings_and_output_weights m \<and>
          \<not> has_key word_embeddings_for_head_key state_dict \<longrightarrow>
            load_state_dict m state_dict strict = Inl KeyError"
    by (simp add: load_value [OF d] has_key_def)
next
  have d: "distinct (map fst state_dict)" using assms(3) by (simp add: loadable_def)
  have t: "map_of state_dict language_model_key \<noteq> Some (Tens t)" for t
    using assms(3) by (auto simp: loadable_def)
  show "(post_process m \<and> \<not> pre_process m \<and> \<not> untie_embeddings_and_output_weights m \<longrightarrow>
             has_key word_embeddings_for_head_key state_dict) \<longrightarrow>
            (\<exists>calls. load_state_dict m state_dict strict = Inr calls \<and>
               word_embeddings_load calls =
                 (if post_process m \<and> \<not> pre_process m \<and>
                     \<not> untie_embeddings_and_output_weights m
                  then map_option (\<lambda>v. (v, strict))
                         (map_of state_dict word_embeddings_for_head_key)
                  else None))"
    using t by (auto simp: load_value [OF d] has_key_def split: option.splits pyobj.splits)
qed

lemma filter_all_marked:
  "list_all (\<lambda>kv. expert_marked (fst kv)) xs \<Longrightarrow>
   filter (\<lambda>kv. expert_marked (fst kv)) xs = xs \<and> filter (\<lambda>kv. \<not> expert_marked (fst kv)) xs = []"
  by (induction xs) auto

lemma param_at_map_of: "map_of a = map_of b \<Longrightarrow> param_at (Dict a) path = param_at (Dict b) path"
  by (cases path) simp_all

lemma param_at_empty: "param_at (Dict []) path = None"
  by (cases path) simp_all

text \<open>
  C4. When the inner language model's \<open>moe_state_dict\<close> entry, if it has one,
  is a dict of expert-marked keys (each contains \<open>expert\<close> and none contains
  \<open>moe.gate.wg.weight\<close>), saving and then loading on the same instance hands
  the inner language model the parameter tree it produced: the save hoists the
  MoE entries to the top level and stores the rest, without a
  \<open>moe_state_dict\<close> entry, under the language-model key; the load collects
  exactly the hoisted entries and, when there are any, puts them back under
  one \<open>moe_state_dict\<close> entry of the unwrapped dict. Every tensor is found at
  the path it had, every other key has the value it had, the MoE entries are
  the same, and with at least one MoE entry the dict is equal to the one
  produced. The head word-embedding state is handed back to the embedding
  exactly when it was saved.
\<close>

theorem checkpoint_round_trip:
  assumes ok: "expert_state_ok (language_model_state_dict_for_save_checkpoint m prefix keep_vars)"
  shows "\<exists>sd calls inner.
     state_dict_for_save_checkpoint m prefix keep_vars = Inr sd \<and>
     filter (\<lambda>kv. expert_marked (fst kv)) sd =
       moe_entries (language_model_state_dict_for_save_checkpoint m prefix keep_vars) \<and>
     map_of sd language_model_key =
       Some (Dict (AList.delete ''moe_state_dict''
                    (language_model_state_dict_for_save_checkpoint m prefix keep_vars))) \<and>
     load_state_dict m sd strict = Inr calls \<and>
     language_model_load calls = (Dict inner, strict) \<and>
     param_at (Dict inner) =
       param_at (Dict (language_model_state_dict_for_save_checkpoint m prefix keep_vars)) \<and>
     (\<forall>k. k \<noteq> ''moe_state_dict'' \<longrightarrow>
        map_of inner k =
        map_of (language_model_state_dict_for_save_checkpoint m prefix keep_vars) k) \<and>
     moe_entries inner =
       moe_entries (language_model_state_dict_for_save_checkpoint m prefix keep_vars) \<and>
     (moe_entries (language_model_state_dict_for_save_checkpoint m prefix keep_vars) \<noteq> [] \<longrightarrow>
        map_of inner = map_of (language_model_state_dict_for_save_checkpoint m prefix keep_vars)) \<and>
     word_embeddings_load calls =
       (if post_process m \<and> \<not> pre_process m \<and> \<not> untie_embeddings_and_output_weights m
        then Some (Dict (word_embeddings_state_dict m prefix keep_vars), strict)
        else None)"
proof -
  define d where "d = language_model_state_dict_for_save_checkpoint m prefix keep_vars"
  define moe where "moe = moe_entries d"
  define rest where "rest = [(language_model_key, Dict (AList.delete ''moe_state_dict'' d))] @
                            head_entry m prefix keep_vars"
  have marked: "list_all (\<lambda>kv. expert_marked (fst kv)) moe" and dist: "distinct (map fst moe)"
    and hoist: "hoistable d"
    using ok unfolding moe_def moe_entries_def expert_state_ok_def hoistable_def d_def [symmetric]
    by (auto split: option.splits pyobj.splits)
  have mk: "k \<in> fst ` set moe \<Longrightarrow> expert_marked k" for k
    using marked by (auto simp: list_all_iff)
  have l: "language_model_key \<notin> fst ` set moe" and w: "word_embeddings_for_head_key \<notin> fst ` set moe"
    using mk keys_unmarked by blast+
  have sv: "state_dict_for_save_checkpoint m prefix keep_vars = Inr (moe @ rest)"
    using save_value [of m prefix keep_vars] hoist l w
    by (simp add: d_def moe_def rest_def)
  have frest: "filter (\<lambda>kv. expert_marked (fst kv)) rest = []"
    "filter (\<lambda>kv. \<not> expert_marked (fst kv)) rest = rest"
    using keys_unmarked by (auto simp: rest_def head_entry_def)
  have fsd: "filter (\<lambda>kv. expert_marked (fst kv)) (moe @ rest) = moe"
    using filter_all_marked [OF marked] frest by simp
  have dsd: "distinct (map fst (moe @ rest))"
    using dist l w keys_unmarked(3) by (auto simp: rest_def head_entry_def)
  have lm: "map_of (moe @ rest) language_model_key =
            Some (Dict (AList.delete ''moe_state_dict'' d))"
    using map_of_append_fresh [OF l, of rest] by (simp add: rest_def)
  have hd: "map_of (moe @ rest) word_embeddings_for_head_key =
            (if post_process m \<and> \<not> pre_process m \<and> \<not> untie_embeddings_and_output_weights m
             then Some (Dict (word_embeddings_state_dict m prefix keep_vars)) else None)"
    using map_of_append_fresh [OF w, of rest] keys_unmarked(3)
    by (simp add: rest_def head_entry_def)
  define inner where "inner = (if moe = [] then AList.delete ''moe_state_dict'' d
     else AList.update ''moe_state_dict'' (Dict moe) (AList.delete ''moe_state_dict'' d))"
  have ld: "load_state_dict m (moe @ rest) strict =
     Inr \<lparr>word_embeddings_load =
            (if post_process m \<and> \<not> pre_process m \<and> \<not> untie_embeddings_and_output_weights m
             then Some (Dict (word_embeddings_state_dict m prefix keep_vars), strict) else None),
          language_model_load = (Dict inner, strict)\<rparr>"
    unfolding load_value [OF dsd] lm hd fsd inner_def by simp
  have same: "moe \<noteq> [] \<Longrightarrow> map_of inner = map_of d"
  proof -
    assume ne: "moe \<noteq> []"
    then obtain v where v: "map_of d ''moe_state_dict'' = Some v"
      by (cases "map_of d ''moe_state_dict''") (auto simp: moe_def moe_entries_def)
    with ne have "v = Dict moe"
      by (cases v) (auto simp: moe_def moe_entries_def)
    with v ne show ?thesis
      by (auto simp: inner_def update_conv' delete_conv')
  qed
  have others: "k \<noteq> ''moe_state_dict'' \<Longrightarrow> map_of inner k = map_of d k" for k
    by (simp add: inner_def update_conv' delete_conv')
  have entries: "moe_entries inner = moe"
  proof (cases "moe = []")
    case True
    then have "map_of inner ''moe_state_dict'' = None"
      by (simp add: inner_def delete_conv')
    with True show ?thesis by (simp add: moe_entries_def)
  next
    case False
    then have "map_of inner ''moe_state_dict'' = Some (Dict moe)"
      by (simp add: inner_def update_conv')
    then show ?thesis by (simp add: moe_entries_def)
  qed
  have tree: "param_at (Dict inner) path = param_at (Dict d) path" for path
  proof (cases "moe = []")
    case False
    from same [OF False] show ?thesis by (rule param_at_map_of)
  next
    case True
    show ?thesis
    proof (cases path)
      case Nil
      then show ?thesis by simp
    next
      case (Cons k rest_path)
      show ?thesis
      proof (cases "k = ''moe_state_dict''")
        case False
        with others [OF False] Cons show ?thesis by simp
      next
        case k: True
        have i: "map_of inner ''moe_state_dict'' = None"
          using True by (simp add: inner_def delete_conv')
        have "param_at (Dict d) (''moe_state_dict'' # rest_path) = None"
        proof (cases "map_of d ''moe_state_dict''")
          case None
          then show ?thesis by simp
        next
          case (Some v)
          with ok True have "v = Dict []"
            unfolding moe_def moe_entries_def expert_state_ok_def d_def [symmetric]
            by (cases v) auto
          with Some show ?thesis by (simp add: param_at_empty)
        qed
        with i k Cons show ?thesis by simp
      qed
    qed
  qed
  then have tree_eq: "param_at (Dict inner) = param_at (Dict d)" by (rule ext)
  show ?thesis
    unfolding d_def [symmetric]
    apply (rule exI [of _ "moe @ rest"])
    apply (rule exI [of _ "\<lparr>word_embeddings_load =
            (if post_process m \<and> \<not> pre_process m \<and> \<not> untie_embeddings_and_output_weights m
             then Some (Dict (word_embeddings_state_dict m prefix keep_vars), strict) else None),
          language_model_load = (Dict inner, strict)\<rparr>"])
    apply (rule exI [of _ inner])
    using sv ld same fsd lm others entries tree_eq
    by (simp add: d_def moe_def)
qed

lemmas example_defs = example_model_def moe_lm_state_def empty_moe_lm_state_def
  expert_key_def language_model_key_def word_embeddings_for_head_key_def

lemma marked_examples: "expert_marked expert_key"
  by (simp add: expert_marked_def expert_key_def)

theorem checkpoint_round_trip_witness:
  "expert_state_ok (language_model_state_dict_for_save_checkpoint
      (example_model False True False moe_lm_state) '''' False) \<and>
   (\<exists>sd calls inner.
     state_dict_for_save_checkpoint (example_model False True False moe_lm_state) '''' False = Inr sd \<and>
     filter (\<lambda>kv. expert_marked (fst kv)) sd = [(expert_key, Tens 2)] \<and>
     load_state_dict (example_model False True False moe_lm_state) sd True = Inr calls \<and>
     language_model_load calls = (Dict inner, True) \<and>
     param_at (Dict inner) = param_at (Dict moe_lm_state) \<and>
     map_of inner = map_of moe_lm_state \<and>
     word_embeddings_load calls = Some (Dict [(''weight'', Tens 7)], True)) \<and>
   expert_state_ok (language_model_state_dict_for_save_checkpoint
      (example_model False True False empty_moe_lm_state) '''' False) \<and>
   (\<exists>sd calls inner.
     state_dict_for_save_checkpoint (example_model False True False empty_moe_lm_state) '''' False
       = Inr sd \<and>
     load_state_dict (example_model False True False empty_moe_lm_state) sd True = Inr calls \<and>
     language_model_load calls = (Dict inner, True) \<and>
     param_at (Dict inner) = param_at (Dict empty_moe_lm_state) \<and>
     moe_entries inner = [])"
proof -
  have h: "expert_state_ok (language_model_state_dict_for_save_checkpoint
      (example_model False True False moe_lm_state) '''' False)"
    using marked_examples
    by (simp add: expert_state_ok_def example_model_def moe_lm_state_def)
  have g: "expert_state_ok (language_model_state_dict_for_save_checkpoint
      (example_model False True False empty_moe_lm_state) '''' False)"
    by (simp add: expert_state_ok_def example_model_def empty_moe_lm_state_def)
  have e: "moe_entries moe_lm_state = [(expert_key, Tens 2)]"
    "moe_entries empty_moe_lm_state = []"
    by (simp_all add: moe_entries_def moe_lm_state_def empty_moe_lm_state_def)
  have a: "\<exists>sd calls inner.
     state_dict_for_save_checkpoint (example_model False True False moe_lm_state) '''' False = Inr sd \<and>
     filter (\<lambda>kv. expert_marked (fst kv)) sd = [(expert_key, Tens 2)] \<and>
     load_state_dict (example_model False True False moe_lm_state) sd True = Inr calls \<and>
     language_model_load calls = (Dict inner, True) \<and>
     param_at (Dict inner) = param_at (Dict moe_lm_state) \<and>
     map_of inner = map_of moe_lm_state \<and>
     word_embeddings_load calls = Some (Dict [(''weight'', Tens 7)], True)"
    using checkpoint_round_trip [OF h, of True]
    apply (elim exE conjE)
    apply (rule_tac x = sd in exI)
    apply (rule_tac x = calls in exI)
    apply (rule_tac x = inner in exI)
    apply (simp add: example_model_def e)
    done
  have b: "\<exists>sd calls inner.
     state_dict_for_save_checkpoint (example_model False True False empty_moe_lm_state) '''' False
       = Inr sd \<and>
     load_state_dict (example_model False True False empty_moe_lm_state) sd True = Inr calls \<and>
     language_model_load calls = (Dict inner, True) \<and>
     param_at (Dict inner) = param_at (Dict empty_moe_lm_state) \<and>
     moe_entries inner = []"
    using checkpoint_round_trip [OF g, of True]
    apply (elim exE conjE)
    apply (rule_tac x = sd in exI)
    apply (rule_tac x = calls in exI)
    apply (rule_tac x = inner in exI)
    apply (simp add: example_model_def e)
    done
  show ?thesis using h g a b by blast
qed

text \<open>
  The claim as written (the key is used exactly when the weights are untied)
  fails both ways: an untied last-stage model neither writes nor reads the
  key, and a tied one writes it.
\<close>

theorem head_embedding_key_counterexample:
  "untie_embeddings_and_output_weights (example_model False True True [(''encoder'', Tens 1)]) \<and>
   post_process (example_model False True True [(''encoder'', Tens 1)]) \<and>
   \<not> pre_process (example_model False True True [(''encoder'', Tens 1)]) \<and>
   state_dict_for_save_checkpoint (example_model False True True [(''encoder'', Tens 1)]) '''' False =
     Inr [(language_model_key, Dict [(''encoder'', Tens 1)])] \<and>
   \<not> has_key word_embeddings_for_head_key
      [(language_model_key, Dict [(''encoder'', Tens (1::nat))])] \<and>
   load_state_dict (example_model False True True [(''encoder'', Tens 1)])
     [(language_model_key, Dict [(''encoder'', Tens 1)]),
      (word_embeddings_for_head_key, Dict [(''weight'', Tens 7)])] True =
     Inr \<lparr>word_embeddings_load = None,
          language_model_load = (Dict [(''encoder'', Tens 1)], True)\<rparr> \<and>
   \<not> untie_embeddings_and_output_weights (example_model False True False [(''encoder'', Tens 1)]) \<and>
   state_dict_for_save_checkpoint (example_model False True False [(''encoder'', Tens 1)]) '''' False =
     Inr [(language_model_key, Dict [(''encoder'', Tens 1)]),
          (word_embeddings_for_head_key, Dict [(''weight'', Tens 7)])]"
  by (simp add: state_dict_for_save_checkpoint_def load_state_dict_def has_key_def example_defs)

theorem head_embedding_key_witness:
  "hoistable (language_model_state_dict_for_save_checkpoint
      (example_model False True False moe_lm_state) '''' False) \<and>
   \<not> has_key word_embeddings_for_head_key
      (moe_entries (language_model_state_dict_for_save_checkpoint
         (example_model False True False moe_lm_state) '''' False)) \<and>
   loadable [(language_model_key, Dict [(''encoder'', Tens (1::nat))]),
             (word_embeddings_for_head_key, Dict [(''weight'', Tens 7)])] \<and>
   (\<exists>sd. state_dict_for_save_checkpoint (example_model False True False moe_lm_state) '''' False
            = Inr sd \<and>
         map_of sd word_embeddings_for_head_key = Some (Dict [(''weight'', Tens 7)])) \<and>
   load_state_dict (example_model False True False moe_lm_state)
     [(language_model_key, Dict [(''encoder'', Tens 1)])] True = Inl KeyError \<and>
   (\<exists>calls. load_state_dict (example_model False True False moe_lm_state)
        [(language_model_key, Dict [(''encoder'', Tens 1)]),
         (word_embeddings_for_head_key, Dict [(''weight'', Tens 7)])] True = Inr calls \<and>
      word_embeddings_load calls = Some (Dict [(''weight'', Tens 7)], True))"
proof -
  have h1: "hoistable (language_model_state_dict_for_save_checkpoint
      (example_model False True False moe_lm_state) '''' False)"
    by (simp add: hoistable_def example_model_def moe_lm_state_def)
  have h2: "\<not> has_key word_embeddings_for_head_key
      (moe_entries (language_model_state_dict_for_save_checkpoint
         (example_model False True False moe_lm_state) '''' False))"
    by (simp add: has_key_def moe_entries_def example_defs)
  have h3: "loadable [(language_model_key, Dict [(''encoder'', Tens (1::nat))]),
             (word_embeddings_for_head_key, Dict [(''weight'', Tens 7)])]"
    by (simp add: loadable_def language_model_key_def word_embeddings_for_head_key_def)
  have h4: "loadable [(language_model_key, Dict [(''encoder'', Tens (1::nat))])]"
    by (simp add: loadable_def language_model_key_def word_embeddings_for_head_key_def)
  have k: "language_model_key \<noteq> word_embeddings_for_head_key"
    by (simp add: language_model_key_def word_embeddings_for_head_key_def)
  show ?thesis
    using h1 h2 h3
      head_embedding_key_written_and_read_iff_tied [OF h1 h2 h3, of True]
      head_embedding_key_written_and_read_iff_tied [OF h1 h2 h4, of True] k
    by (auto simp: example_model_def has_key_def)
qed

section \<open>Results about tensors\<close>

lemma length_indices: "length (indices ns) = prod_list ns"
proof (induction ns)
  case Nil
  show ?case by simp
next
  case (Cons n ns)
  have "length (concat (map (\<lambda>i. map (\<lambda>idx. i # idx) (indices ns)) [0..<n])) =
        sum_list (map (\<lambda>i. prod_list ns) [0..<n])"
    by (simp add: length_concat comp_def Cons.IH)
  also have "\<dots> = n * prod_list ns" by (simp add: sum_list_triv)
  finally show ?case by simp
qed

lemma nth_concat_blocks:
  "\<forall>b \<in> set bs. length b = p \<Longrightarrow> i < length bs \<Longrightarrow> r < p \<Longrightarrow>
   concat bs ! (i * p + r) = bs ! i ! r"
proof (induction bs arbitrary: i)
  case Nil
  then show ?case by simp
next
  case (Cons b bs)
  show ?case
  proof (cases i)
    case 0
    with Cons.prems show ?thesis by (simp add: nth_append)
  next
    case (Suc j)
    have "concat (b # bs) ! (i * p + r) = concat bs ! (j * p + r)"
      using Cons.prems Suc by (simp add: nth_append)
    also have "\<dots> = bs ! j ! r"
      using Cons.prems Suc by (intro Cons.IH) auto
    finally show ?thesis using Suc by simp
  qed
qed

lemma lin_bound: "list_all2 (<) idx ns \<Longrightarrow> lin ns idx < prod_list ns"
proof (induction ns arbitrary: idx)
  case Nil
  then show ?case by simp
next
  case (Cons n ns)
  then obtain i rest where idx: "idx = i # rest" and i: "i < n" and rest: "list_all2 (<) rest ns"
    by (auto simp: list_all2_Cons2)
  have r: "lin ns rest < prod_list ns" by (rule Cons.IH [OF rest])
  have "i * prod_list ns + lin ns rest < Suc i * prod_list ns" using r by simp
  also have "\<dots> \<le> n * prod_list ns" using i by (intro mult_le_mono1) simp
  finally show ?case by (simp add: idx)
qed

lemma indices_nth: "list_all2 (<) idx ns \<Longrightarrow> indices ns ! lin ns idx = idx"
proof (induction ns arbitrary: idx)
  case Nil
  then show ?case by simp
next
  case (Cons n ns)
  then obtain i rest where idx: "idx = i # rest" and i: "i < n" and rest: "list_all2 (<) rest ns"
    by (auto simp: list_all2_Cons2)
  have r: "lin ns rest < prod_list ns" by (rule lin_bound [OF rest])
  have "concat (map (\<lambda>i. map (\<lambda>idx. i # idx) (indices ns)) [0..<n]) ! (i * prod_list ns + lin ns rest)
        = map (\<lambda>i. map (\<lambda>idx. i # idx) (indices ns)) [0..<n] ! i ! lin ns rest"
    using i r by (intro nth_concat_blocks) (auto simp: length_indices)
  also have "\<dots> = i # indices ns ! lin ns rest"
    using i r by (simp add: length_indices)
  also have "\<dots> = i # rest" by (simp add: Cons.IH [OF rest])
  finally show ?case by (simp add: idx)
qed

lemma map_indices_nth:
  "list_all2 (<) idx ns \<Longrightarrow> map f (indices ns) ! lin ns idx = f idx"
  using lin_bound [of idx ns] indices_nth [of idx ns] by (simp add: length_indices)

lemma dense_row_major: "prod_list ns \<noteq> 0 \<Longrightarrow> dense_strides ns (row_major_strides ns)"
proof (induction ns)
  case Nil
  show ?case by simp
next
  case (Cons n ns)
  then have nz: "prod_list ns \<noteq> 0" by auto
  then have "\<forall>k \<in> set ns. k \<noteq> 0" by (induction ns) auto
  then have "map (max 1) ns = ns" by (induction ns) (auto simp: max_def)
  with Cons.IH [OF nz] show ?case by simp
qed

lemma bind_Inr: "f s = (Inr x, s') \<Longrightarrow> bind f g s = g x s'"
  by (simp add: bind_def)

lemma bind_Inl: "f s = (Inl e, s') \<Longrightarrow> bind f g s = (Inl e, s')"
  by (simp add: bind_def)

lemma contiguous_result:
  "\<exists>t' n. contiguous t s = (Inr t', s\<lparr>next_storage := n\<rparr>) \<and> next_storage s \<le> n \<and>
     sizes t' = sizes t \<and> elems t' = elems t \<and> dtype t' = dtype t \<and> is_contiguous t' \<and>
     (storage t' = storage t \<and> t' = t \<and> is_contiguous t \<or>
      storage t' = next_storage s \<and> \<not> is_contiguous t)"
proof (cases "is_contiguous t")
  case True
  have "s\<lparr>next_storage := next_storage s\<rparr> = s" by simp
  with True show ?thesis
    by (intro exI [of _ t] exI [of _ "next_storage s"]) (simp add: contiguous_def)
next
  case False
  then have nz: "prod_list (sizes t) \<noteq> 0" by (simp add: is_contiguous_def)
  show ?thesis
    using False dense_row_major [OF nz]
    by (intro exI [of _ "t\<lparr>storage := next_storage s, strides := row_major_strides (sizes t)\<rparr>"]
          exI [of _ "Suc (next_storage s)"])
       (simp add: contiguous_def is_contiguous_def)
qed

lemma transpose_contiguous:
  assumes "2 \<le> length (sizes t)"
  shows "\<exists>t' n. bind (lift (transpose01 t)) contiguous s = (Inr t', s\<lparr>next_storage := n\<rparr>) \<and>
     next_storage s \<le> n \<and>
     sizes t' = swap01 (sizes t) \<and>
     elems t' = map (\<lambda>idx. elems t ! lin (sizes t) (swap01 idx)) (indices (swap01 (sizes t))) \<and>
     dtype t' = dtype t \<and> is_contiguous t'"
proof -
  define v where "v = t\<lparr>sizes := swap01 (sizes t), strides := swap01 (strides t),
     elems := map (\<lambda>idx. elems t ! lin (sizes t) (swap01 idx)) (indices (swap01 (sizes t)))\<rparr>"
  have tr: "lift (transpose01 t) s = (Inr v, s)"
    using assms by (simp add: lift_def transpose01_def v_def)
  from contiguous_result [of v s] obtain t' n where
    c: "contiguous v s = (Inr t', s\<lparr>next_storage := n\<rparr>)" "next_storage s \<le> n"
       "sizes t' = sizes v" "elems t' = elems v" "dtype t' = dtype v" "is_contiguous t'"
    by blast
  show ?thesis
    using c by (intro exI [of _ t'] exI [of _ n]) (simp add: bind_def tr v_def)
qed

lemma transpose_short:
  "length (sizes t) < 2 \<Longrightarrow> bind (lift (transpose01 t)) contiguous s = (Inl IndexError, s)"
  by (simp add: bind_def lift_def transpose01_def)

section \<open>Results about post\_language\_model\_processing\<close>

lemma to_float_result:
  "\<exists>t' n. to_float t s = (Inr t', s\<lparr>next_storage := n\<rparr>) \<and> next_storage s \<le> n \<and>
     sizes t' = sizes t \<and> elems t' = elems t \<and> dtype t' = Float"
proof (cases "dtype t = Float")
  case True
  have "s\<lparr>next_storage := next_storage s\<rparr> = s" by simp
  with True show ?thesis
    by (intro exI [of _ t] exI [of _ "next_storage s"]) (simp add: to_float_def)
next
  case False
  then show ?thesis
    by (intro exI [of _ "t\<lparr>storage := next_storage s, strides := row_major_strides (sizes t),
                          dtype := Float\<rparr>"] exI [of _ "Suc (next_storage s)"])
       (simp add: to_float_def)
qed

lemma transpose_back:
  "\<exists>r n. bind (lift (transpose01 loss)) contiguous s = (r, s\<lparr>next_storage := n\<rparr>) \<and>
     (length (sizes loss) < 2 \<and> r = Inl IndexError \<or>
      2 \<le> length (sizes loss) \<and>
      (\<exists>t. r = Inr t \<and> sizes t = swap01 (sizes loss) \<and>
           elems t = map (\<lambda>idx. elems loss ! lin (sizes loss) (swap01 idx))
                       (indices (swap01 (sizes loss))) \<and>
           dtype t = dtype loss \<and> is_contiguous t))"
proof (cases "length (sizes loss) < 2")
  case True
  have "s\<lparr>next_storage := next_storage s\<rparr> = s" by simp
  with True show ?thesis
    by (intro exI [of _ "Inl IndexError"] exI [of _ "next_storage s"]) (simp add: transpose_short)
next
  case False
  then have r: "2 \<le> length (sizes loss)" by simp
  from transpose_contiguous [OF r, of s] obtain t n where
    "bind (lift (transpose01 loss)) contiguous s = (Inr t, s\<lparr>next_storage := n\<rparr>)"
    "sizes t = swap01 (sizes loss)"
    "elems t = map (\<lambda>idx. elems loss ! lin (sizes loss) (swap01 idx)) (indices (swap01 (sizes loss)))"
    "dtype t = dtype loss" "is_contiguous t"
    by blast
  with r show ?thesis by (intro exI [of _ "Inr t"] exI [of _ n]) simp
qed

lemma post_processing_with_labels:
  assumes rank: "2 \<le> length (sizes labels)"
    and half: "fp16 \<longrightarrow> dtype (parallel_lm_logits rt H W po) = Half"
  shows "\<exists>target logits r n.
     post_language_model_processing rt H (Some labels) W po fp16 s =
       (r, s\<lparr>next_storage := n,
             calls := calls s @ [ParallelLmLogits H W po, selected_call rt logits target]\<rparr>) \<and>
     sizes target = swap01 (sizes labels) \<and>
     elems target = map (\<lambda>idx. elems labels ! lin (sizes labels) (swap01 idx))
                      (indices (swap01 (sizes labels))) \<and>
     sizes logits = sizes (parallel_lm_logits rt H W po) \<and>
     elems logits = elems (parallel_lm_logits rt H W po) \<and>
     dtype logits = (if fp16 then Half else Float) \<and>
     (length (sizes (selected_cross_entropy rt logits target)) < 2 \<and> r = Inl IndexError \<or>
      2 \<le> length (sizes (selected_cross_entropy rt logits target)) \<and>
      (\<exists>t. r = Inr t \<and>
           sizes t = swap01 (sizes (selected_cross_entropy rt logits target)) \<and>
           elems t = map (\<lambda>idx. elems (selected_cross_entropy rt logits target) !
                              lin (sizes (selected_cross_entropy rt logits target)) (swap01 idx))
                       (indices (swap01 (sizes (selected_cross_entropy rt logits target))))))"
proof -
  define out where "out = parallel_lm_logits rt H W po"
  define s1 where "s1 = s\<lparr>calls := calls s @ [ParallelLmLogits H W po]\<rparr>"
  have step1: "call_parallel_lm_logits rt H W po s = (Inr out, s1)"
    by (simp add: call_parallel_lm_logits_def out_def s1_def)
  from transpose_contiguous [OF rank, of s1] obtain target n1 where
    step2: "bind (lift (transpose01 labels)) contiguous s1 = (Inr target, s1\<lparr>next_storage := n1\<rparr>)"
    and tg: "sizes target = swap01 (sizes labels)"
      "elems target = map (\<lambda>idx. elems labels ! lin (sizes labels) (swap01 idx))
                        (indices (swap01 (sizes labels)))"
    by blast
  define s2 where "s2 = s1\<lparr>next_storage := n1\<rparr>"
  obtain logits n2 where
    lg: "(if fp16 then bind (assert (dtype out = Half)) (\<lambda>u. ret out) else to_float out) s2 =
           (Inr logits, s2\<lparr>next_storage := n2\<rparr>)"
      "sizes logits = sizes out" "elems logits = elems out"
      "dtype logits = (if fp16 then Half else Float)"
  proof (cases fp16)
    case True
    have "s2\<lparr>next_storage := next_storage s2\<rparr> = s2" by simp
    then have "(if fp16 then bind (assert (dtype out = Half)) (\<lambda>u. ret out) else to_float out) s2 =
           (Inr out, s2\<lparr>next_storage := next_storage s2\<rparr>)"
      using True half by (simp add: bind_def assert_def ret_def out_def)
    then show ?thesis using True half that [of out "next_storage s2"] by (simp add: out_def)
  next
    case False
    from to_float_result [of out s2] obtain t' n where
      "to_float out s2 = (Inr t', s2\<lparr>next_storage := n\<rparr>)" "sizes t' = sizes out"
      "elems t' = elems out" "dtype t' = Float" by blast
    then show ?thesis using False that [of t' n] by simp
  qed
  define loss where "loss = selected_cross_entropy rt logits target"
  define s3 where "s3 = s2\<lparr>next_storage := n2, calls := calls s2 @ [selected_call rt logits target]\<rparr>"
  have step3: "bind (if fp16 then bind (assert (dtype out = Half))
                        (\<lambda>u. (if get_sequence_parallel_world_size rt > 1
                              then call_vocab_sequence_parallel_cross_entropy rt
                              else call_vocab_parallel_cross_entropy rt) out target)
                     else bind (to_float out)
                        (\<lambda>output_float. (if get_sequence_parallel_world_size rt > 1
                              then call_vocab_sequence_parallel_cross_entropy rt
                              else call_vocab_parallel_cross_entropy rt) output_float target)) g s2 =
               g loss s3" for g :: "'a tensor \<Rightarrow> ('a, 'a tensor) run"
  proof (cases fp16)
    case True
    with lg(1) have "logits = out" "s2\<lparr>next_storage := n2\<rparr> = s2"
      using half by (auto simp: bind_def assert_def ret_def out_def split: if_splits)
    then have "s3 = s2\<lparr>calls := calls s2 @ [selected_call rt out target]\<rparr>"
      unfolding s3_def by (metis (no_types, lifting) state.surjective state.update_convs(1,3)
          state.select_convs(1))
    then show ?thesis
      using True half \<open>logits = out\<close>
      by (simp add: bind_def assert_def out_def loss_def selected_cross_entropy_def
            selected_call_def call_vocab_sequence_parallel_cross_entropy_def
            call_vocab_parallel_cross_entropy_def)
  next
    case False
    with lg(1) have "to_float out s2 = (Inr logits, s2\<lparr>next_storage := n2\<rparr>)" by simp
    then show ?thesis
      using False
      by (simp add: bind_def loss_def s3_def selected_cross_entropy_def
            selected_call_def call_vocab_sequence_parallel_cross_entropy_def
            call_vocab_parallel_cross_entropy_def)
  qed
  from transpose_back [of loss s3] obtain r n where
    step4: "bind (lift (transpose01 loss)) contiguous s3 = (r, s3\<lparr>next_storage := n\<rparr>)"
    and res: "length (sizes loss) < 2 \<and> r = Inl IndexError \<or>
      2 \<le> length (sizes loss) \<and>
      (\<exists>t. r = Inr t \<and> sizes t = swap01 (sizes loss) \<and>
           elems t = map (\<lambda>idx. elems loss ! lin (sizes loss) (swap01 idx))
                       (indices (swap01 (sizes loss))) \<and>
           dtype t = dtype loss \<and> is_contiguous t)"
    by blast
  have run: "post_language_model_processing rt H (Some labels) W po fp16 s =
             (r, s3\<lparr>next_storage := n\<rparr>)"
    unfolding post_language_model_processing_def
    by (simp add: bind_Inr [where f = "call_parallel_lm_logits rt H W po", OF step1]
          bind_Inr [where f = "bind (lift (transpose01 labels)) contiguous", OF step2]
          s2_def [symmetric] step3 step4 Let_def)
  have st: "s3\<lparr>next_storage := n\<rparr> =
            s\<lparr>next_storage := n,
              calls := calls s @ [ParallelLmLogits H W po, selected_call rt logits target]\<rparr>"
    by (simp add: s3_def s2_def s1_def)
  show ?thesis
    using run st tg lg(2-4) res
    by (intro exI [of _ target] exI [of _ logits] exI [of _ r] exI [of _ n])
       (auto simp: out_def loss_def)
qed

lemma post_processing_assertion:
  assumes rank: "2 \<le> length (sizes labels)"
    and nohalf: "dtype (parallel_lm_logits rt H W po) \<noteq> Half"
  shows "\<exists>n. post_language_model_processing rt H (Some labels) W po True s =
     (Inl AssertionError, s\<lparr>next_storage := n, calls := calls s @ [ParallelLmLogits H W po]\<rparr>)"
proof -
  define s1 where "s1 = s\<lparr>calls := calls s @ [ParallelLmLogits H W po]\<rparr>"
  have step1: "call_parallel_lm_logits rt H W po s = (Inr (parallel_lm_logits rt H W po), s1)"
    by (simp add: call_parallel_lm_logits_def s1_def)
  from transpose_contiguous [OF rank, of s1] obtain target n1 where
    step2: "bind (lift (transpose01 labels)) contiguous s1 = (Inr target, s1\<lparr>next_storage := n1\<rparr>)"
    by blast
  have "post_language_model_processing rt H (Some labels) W po True s =
        (Inl AssertionError, s1\<lparr>next_storage := n1\<rparr>)"
    unfolding post_language_model_processing_def
    using nohalf
    by (simp add: bind_Inr [where f = "call_parallel_lm_logits rt H W po", OF step1]
          bind_Inr [where f = "bind (lift (transpose01 labels)) contiguous", OF step2] Let_def)
       (simp add: bind_def assert_def)
  then show ?thesis by (intro exI [of _ n1]) (simp add: s1_def)
qed

text \<open>
  C5. With labels present (of at least two dimensions, so that line 54 can
  transpose them), a sequence-parallel world size of at least 1 and the
  precision assertion of line 58 passing, \<open>post_language_model_processing\<close>
  calls the sequence-parallel vocabulary cross-entropy exactly when the world
  size is greater than 1, and the tensor-parallel one exactly when it is 1.
\<close>

theorem cross_entropy_selection:
  assumes "2 \<le> length (sizes labels)"
    and "fp16 \<longrightarrow> dtype (parallel_lm_logits rt H W po) = Half"
    and "1 \<le> get_sequence_parallel_world_size rt"
  shows "(invoked_sequence_parallel
            (new_calls s (snd (post_language_model_processing rt H (Some labels) W po fp16 s)))
          \<longleftrightarrow> get_sequence_parallel_world_size rt > 1) \<and>
         (invoked_tensor_parallel
            (new_calls s (snd (post_language_model_processing rt H (Some labels) W po fp16 s)))
          \<longleftrightarrow> get_sequence_parallel_world_size rt = 1)"
proof -
  from post_processing_with_labels [OF assms(1,2), of s] obtain target logits r n where
    "post_language_model_processing rt H (Some labels) W po fp16 s =
       (r, s\<lparr>next_storage := n,
             calls := calls s @ [ParallelLmLogits H W po, selected_call rt logits target]\<rparr>)"
    by blast
  then have "new_calls s (snd (post_language_model_processing rt H (Some labels) W po fp16 s)) =
             [ParallelLmLogits H W po, selected_call rt logits target]"
    by (simp add: new_calls_def)
  then show ?thesis
    using assms(3)
    by (auto simp: invoked_sequence_parallel_def invoked_tensor_parallel_def selected_call_def)
qed

text \<open>
  C6. With labels present: when the half-precision-loss flag is set and the
  projected logits are not of dtype half, the call fails with the assertion
  error of line 58 and no cross-entropy has been called (the projection is the
  only collaborator call made). When the flag is unset, no assertion error
  occurs and the cross-entropy that is called receives the logits promoted to
  float32, with the same shape and elements.
\<close>

theorem precision_mismatch_assertion:
  assumes "2 \<le> length (sizes labels)"
  shows "(dtype (parallel_lm_logits rt H W po) \<noteq> Half \<longrightarrow>
            fst (post_language_model_processing rt H (Some labels) W po True s) =
              Inl AssertionError \<and>
            new_calls s (snd (post_language_model_processing rt H (Some labels) W po True s)) =
              [ParallelLmLogits H W po]) \<and>
         fst (post_language_model_processing rt H (Some labels) W po False s) \<noteq>
           Inl AssertionError \<and>
         (\<exists>logits target.
            new_calls s (snd (post_language_model_processing rt H (Some labels) W po False s)) =
              [ParallelLmLogits H W po, selected_call rt logits target] \<and>
            dtype logits = Float \<and>
            sizes logits = sizes (parallel_lm_logits rt H W po) \<and>
            elems logits = elems (parallel_lm_logits rt H W po))"
proof (intro conjI impI)
  assume nohalf: "dtype (parallel_lm_logits rt H W po) \<noteq> Half"
  from post_processing_assertion [OF assms nohalf, of s] obtain n where
    r: "post_language_model_processing rt H (Some labels) W po True s =
     (Inl AssertionError, s\<lparr>next_storage := n, calls := calls s @ [ParallelLmLogits H W po]\<rparr>)"
    by blast
  show "fst (post_language_model_processing rt H (Some labels) W po True s) = Inl AssertionError"
    by (simp add: r)
  show "new_calls s (snd (post_language_model_processing rt H (Some labels) W po True s)) =
              [ParallelLmLogits H W po]"
    by (simp add: r new_calls_def)
next
  have h: "False \<longrightarrow> dtype (parallel_lm_logits rt H W po) = Half" by simp
  from post_processing_with_labels [OF assms h, of s] obtain target logits r n where
    run: "post_language_model_processing rt H (Some labels) W po False s =
       (r, s\<lparr>next_storage := n,
             calls := calls s @ [ParallelLmLogits H W po, selected_call rt logits target]\<rparr>)"
    and lg: "sizes logits = sizes (parallel_lm_logits rt H W po)"
      "elems logits = elems (parallel_lm_logits rt H W po)" "dtype logits = Float"
    and res: "length (sizes (selected_cross_entropy rt logits target)) < 2 \<and> r = Inl IndexError \<or>
      2 \<le> length (sizes (selected_cross_entropy rt logits target)) \<and> (\<exists>t. r = Inr t)"
    by auto
  show "fst (post_language_model_processing rt H (Some labels) W po False s) \<noteq> Inl AssertionError"
    using run res by auto
  show "\<exists>logits target.
            new_calls s (snd (post_language_model_processing rt H (Some labels) W po False s)) =
              [ParallelLmLogits H W po, selected_call rt logits target] \<and>
            dtype logits = Float \<and>
            sizes logits = sizes (parallel_lm_logits rt H W po) \<and>
            elems logits = elems (parallel_lm_logits rt H W po)"
    using run lg by (intro exI [of _ logits] exI [of _ target]) (simp add: new_calls_def)
qed

text \<open>
  C7. For hidden states of shape \<open>[s, b, h]\<close> projected to logits of shape
  \<open>[s, b, v]\<close>: without labels the result is the logits in shape
  \<open>[b, s, v]\<close>, element \<open>(i, j, k)\<close> being the projection's \<open>(j, i, k)\<close>.
  With labels of shape \<open>[b, s]\<close> (the cross-entropy returning a loss of the
  shape of its labels, and the precision assertion passing) the cross-entropy
  is called on the labels transposed to \<open>[s, b]\<close>, and the result is its
  loss transposed back to \<open>[b, s]\<close>.
\<close>

theorem post_processing_orientation:
  assumes "sizes H = [sq, b, h]"
    and "sizes (parallel_lm_logits rt H W po) = [sq, b, v]"
    and "\<And>logits target. sizes (vocab_sequence_parallel_cross_entropy rt logits target) = sizes target"
    and "\<And>logits target. sizes (vocab_parallel_cross_entropy rt logits target) = sizes target"
    and "sizes labels = [b, sq]"
    and "fp16 \<longrightarrow> dtype (parallel_lm_logits rt H W po) = Half"
  shows "(\<exists>t. fst (post_language_model_processing rt H None W po fp16 s) = Inr t \<and>
              sizes t = [b, sq, v] \<and>
              (\<forall>i<b. \<forall>j<sq. \<forall>k<v.
                 elems t ! lin [b, sq, v] [i, j, k] =
                 elems (parallel_lm_logits rt H W po) ! lin [sq, b, v] [j, i, k])) \<and>
         (\<exists>t logits target.
              fst (post_language_model_processing rt H (Some labels) W po fp16 s) = Inr t \<and>
              sizes t = [b, sq] \<and>
              sizes target = [sq, b] \<and>
              (\<forall>i<b. \<forall>j<sq.
                 elems target ! lin [sq, b] [j, i] = elems labels ! lin [b, sq] [i, j]) \<and>
              last (calls (snd (post_language_model_processing rt H (Some labels) W po fp16 s))) =
                selected_call rt logits target \<and>
              (\<forall>i<b. \<forall>j<sq.
                 elems t ! lin [b, sq] [i, j] =
                 elems (selected_cross_entropy rt logits target) ! lin [sq, b] [j, i]))"
proof (intro conjI)
  define out where "out = parallel_lm_logits rt H W po"
  define s1 where "s1 = s\<lparr>calls := calls s @ [ParallelLmLogits H W po]\<rparr>"
  have step1: "call_parallel_lm_logits rt H W po s = (Inr out, s1)"
    by (simp add: call_parallel_lm_logits_def out_def s1_def)
  have rank: "2 \<le> length (sizes out)" using assms(2) by (simp add: out_def)
  from transpose_contiguous [OF rank, of s1] obtain t n where
    step2: "bind (lift (transpose01 out)) contiguous s1 = (Inr t, s1\<lparr>next_storage := n\<rparr>)"
    and t: "sizes t = swap01 (sizes out)"
      "elems t = map (\<lambda>idx. elems out ! lin (sizes out) (swap01 idx)) (indices (swap01 (sizes out)))"
    by blast
  have run: "post_language_model_processing rt H None W po fp16 s = (Inr t, s1\<lparr>next_storage := n\<rparr>)"
    unfolding post_language_model_processing_def
    by (simp add: bind_Inr [where f = "call_parallel_lm_logits rt H W po", OF step1] step2)
  have sz: "sizes out = [sq, b, v]" using assms(2) by (simp add: out_def)
  have el: "elems t ! lin [b, sq, v] [i, j, k] = elems out ! lin [sq, b, v] [j, i, k]"
    if "i < b" "j < sq" "k < v" for i j k
    using map_indices_nth [of "[i, j, k]" "[b, sq, v]"
        "\<lambda>idx. elems out ! lin [sq, b, v] (swap01 idx)"] that
    by (simp add: t(2) sz)
  show "\<exists>t. fst (post_language_model_processing rt H None W po fp16 s) = Inr t \<and>
              sizes t = [b, sq, v] \<and>
              (\<forall>i<b. \<forall>j<sq. \<forall>k<v.
                 elems t ! lin [b, sq, v] [i, j, k] =
                 elems (parallel_lm_logits rt H W po) ! lin [sq, b, v] [j, i, k])"
    using run t(1) sz el by (intro exI [of _ t]) (simp add: out_def)
next
  have rank: "2 \<le> length (sizes labels)" using assms(5) by simp
  have contract: "sizes (selected_cross_entropy rt logits target) = sizes target" for logits target
    using assms(3,4) by (simp add: selected_cross_entropy_def)
  from post_processing_with_labels [OF rank assms(6), of s] obtain target logits r n where
    run: "post_language_model_processing rt H (Some labels) W po fp16 s =
       (r, s\<lparr>next_storage := n,
             calls := calls s @ [ParallelLmLogits H W po, selected_call rt logits target]\<rparr>)"
    and tg: "sizes target = swap01 (sizes labels)"
      "elems target = map (\<lambda>idx. elems labels ! lin (sizes labels) (swap01 idx))
                        (indices (swap01 (sizes labels)))"
    and res: "length (sizes (selected_cross_entropy rt logits target)) < 2 \<and> r = Inl IndexError \<or>
      2 \<le> length (sizes (selected_cross_entropy rt logits target)) \<and>
      (\<exists>t. r = Inr t \<and>
           sizes t = swap01 (sizes (selected_cross_entropy rt logits target)) \<and>
           elems t = map (\<lambda>idx. elems (selected_cross_entropy rt logits target) !
                              lin (sizes (selected_cross_entropy rt logits target)) (swap01 idx))
                       (indices (swap01 (sizes (selected_cross_entropy rt logits target)))))"
    by blast
  have tsz: "sizes target = [sq, b]" using tg(1) assms(5) by simp
  have lsz: "sizes (selected_cross_entropy rt logits target) = [sq, b]"
    using contract tsz by simp
  from res lsz obtain t where
    t: "r = Inr t" "sizes t = [b, sq]"
      "elems t = map (\<lambda>idx. elems (selected_cross_entropy rt logits target) !
                              lin [sq, b] (swap01 idx)) (indices [b, sq])"
    by auto
  have el1: "elems target ! lin [sq, b] [j, i] = elems labels ! lin [b, sq] [i, j]"
    if "i < b" "j < sq" for i j
    using map_indices_nth [of "[j, i]" "[sq, b]" "\<lambda>idx. elems labels ! lin [b, sq] (swap01 idx)"] that
    by (simp add: tg(2) assms(5))
  have el2: "elems t ! lin [b, sq] [i, j] =
             elems (selected_cross_entropy rt logits target) ! lin [sq, b] [j, i]"
    if "i < b" "j < sq" for i j
    using map_indices_nth [of "[i, j]" "[b, sq]"
        "\<lambda>idx. elems (selected_cross_entropy rt logits target) ! lin [sq, b] (swap01 idx)"] that
    by (simp add: t(3))
  show "\<exists>t logits target.
              fst (post_language_model_processing rt H (Some labels) W po fp16 s) = Inr t \<and>
              sizes t = [b, sq] \<and>
              sizes target = [sq, b] \<and>
              (\<forall>i<b. \<forall>j<sq.
                 elems target ! lin [sq, b] [j, i] = elems labels ! lin [b, sq] [i, j]) \<and>
              last (calls (snd (post_language_model_processing rt H (Some labels) W po fp16 s))) =
                selected_call rt logits target \<and>
              (\<forall>i<b. \<forall>j<sq.
                 elems t ! lin [b, sq] [i, j] =
                 elems (selected_cross_entropy rt logits target) ! lin [sq, b] [j, i])"
    using run t(1,2) tsz el1 el2
    by (intro exI [of _ t] exI [of _ logits] exI [of _ target]) simp
qed

section \<open>Results about CrossEntropy\<close>

lemma view_flat_contiguous:
  "is_contiguous t \<Longrightarrow> \<exists>t'. view_flat t = Inr t' \<and> elems t' = elems t"
  by (simp add: view_flat_def)

lemma bind_lift_Inr: "bind (lift (Inr x)) g = g x"
  by (rule ext) (simp add: bind_def lift_def)

lemma CrossEntropy_run:
  assumes lab: "sizes labels = [b, sq]"
    and contract: "\<And>logits target. sizes (vocab_parallel_cross_entropy rt logits target) = sizes target"
    and mask: "is_contiguous loss_mask" "length (elems loss_mask) = b * sq"
  shows "\<exists>target logits per_token n.
     CrossEntropy rt output (labels # loss_mask # others) s =
       (Inr (elem_div rt (elem_sum rt (map2 (elem_mul rt) per_token (elems loss_mask)))
                         (elem_sum rt (elems loss_mask))),
        s\<lparr>next_storage := n, calls := calls s @ [VocabParallelCrossEntropy logits target]\<rparr>) \<and>
     sizes target = [sq, b] \<and>
     (\<forall>i<b. \<forall>j<sq. elems target ! lin [sq, b] [j, i] = elems labels ! lin [b, sq] [i, j]) \<and>
     dtype logits = Float \<and> sizes logits = sizes output \<and> elems logits = elems output \<and>
     length per_token = b * sq \<and>
     (\<forall>i<b. \<forall>j<sq. per_token ! lin [b, sq] [i, j] =
        elems (vocab_parallel_cross_entropy rt logits target) ! lin [sq, b] [j, i])"
proof -
  have rank: "2 \<le> length (sizes labels)" using lab by simp
  from transpose_contiguous [OF rank, of s] obtain target n1 where
    step1: "bind (lift (transpose01 labels)) contiguous s = (Inr target, s\<lparr>next_storage := n1\<rparr>)"
    and tg: "sizes target = swap01 (sizes labels)"
      "elems target = map (\<lambda>idx. elems labels ! lin (sizes labels) (swap01 idx))
                        (indices (swap01 (sizes labels)))"
    by blast
  define s1 where "s1 = s\<lparr>next_storage := n1\<rparr>"
  from contiguous_result [of "output" s1] obtain o1 n2 where
    c: "contiguous output s1 = (Inr o1, s1\<lparr>next_storage := n2\<rparr>)"
       "sizes o1 = sizes output" "elems o1 = elems output" by blast
  define s2 where "s2 = s1\<lparr>next_storage := n2\<rparr>"
  from to_float_result [of o1 s2] obtain logits n3 where
    f: "to_float o1 s2 = (Inr logits, s2\<lparr>next_storage := n3\<rparr>)"
       "sizes logits = sizes o1" "elems logits = elems o1" "dtype logits = Float" by blast
  define losses where "losses = vocab_parallel_cross_entropy rt logits target"
  define s3 where "s3 = s2\<lparr>next_storage := n3,
                          calls := calls s2 @ [VocabParallelCrossEntropy logits target]\<rparr>"
  have step2: "bind (bind (contiguous output) to_float)
                 (\<lambda>logits. call_vocab_parallel_cross_entropy rt logits target) s1 = (Inr losses, s3)"
    using c(1) f(1)
    by (simp add: bind_def s2_def [symmetric] call_vocab_parallel_cross_entropy_def
          losses_def s3_def)
  have lsz: "sizes losses = [sq, b]" using contract tg(1) lab by (simp add: losses_def)
  then have lrank: "2 \<le> length (sizes losses)" by simp
  from transpose_contiguous [OF lrank, of s3] obtain lossesT n4 where
    step3: "bind (lift (transpose01 losses)) contiguous s3 = (Inr lossesT, s3\<lparr>next_storage := n4\<rparr>)"
    and lt: "elems lossesT = map (\<lambda>idx. elems losses ! lin (sizes losses) (swap01 idx))
                        (indices (swap01 (sizes losses)))" "is_contiguous lossesT"
    by blast
  from view_flat_contiguous [OF mask(1)] obtain mask_flat where
    step4: "view_flat loss_mask = Inr mask_flat" and mf: "elems mask_flat = elems loss_mask"
    by blast
  from view_flat_contiguous [OF lt(2)] obtain losses_flat where
    step5: "view_flat lossesT = Inr losses_flat" and lf: "elems losses_flat = elems lossesT"
    by blast
  have "length (elems lossesT) = prod_list (swap01 (sizes losses))"
    by (simp only: lt(1) length_map length_indices)
  then have len: "length (elems lossesT) = b * sq"
    by (simp add: lsz)
  have step6: "broadcast_mul (elem_mul rt) (elems losses_flat) (elems loss_mask) =
               Inr (map2 (elem_mul rt) (elems lossesT) (elems loss_mask))"
    using len mask(2) by (simp add: broadcast_mul_def mf lf)
  have run: "CrossEntropy rt output (labels # loss_mask # others) s =
       (Inr (elem_div rt (elem_sum rt (map2 (elem_mul rt) (elems lossesT) (elems loss_mask)))
                         (elem_sum rt (elems loss_mask))), s3\<lparr>next_storage := n4\<rparr>)"
    unfolding CrossEntropy_def
    by (simp only: list.case
          bind_Inr [where f = "bind (lift (transpose01 labels)) contiguous", OF step1]
          bind_Inr [where f = "bind (bind (contiguous output) to_float)
                 (\<lambda>logits. call_vocab_parallel_cross_entropy rt logits target)",
                 OF step2 [unfolded s1_def]]
          bind_Inr [where f = "bind (lift (transpose01 losses)) contiguous", OF step3]
          step4 step5 step6 mf bind_lift_Inr ret_def)
  have st: "s3\<lparr>next_storage := n4\<rparr> =
            s\<lparr>next_storage := n4, calls := calls s @ [VocabParallelCrossEntropy logits target]\<rparr>"
    by (simp add: s3_def s2_def s1_def)
  have el1: "elems target ! lin [sq, b] [j, i] = elems labels ! lin [b, sq] [i, j]"
    if "i < b" "j < sq" for i j
    using map_indices_nth [of "[j, i]" "[sq, b]" "\<lambda>idx. elems labels ! lin [b, sq] (swap01 idx)"] that
    by (simp add: tg(2) lab)
  have el2: "elems lossesT ! lin [b, sq] [i, j] = elems losses ! lin [sq, b] [j, i]"
    if "i < b" "j < sq" for i j
    using map_indices_nth [of "[i, j]" "[b, sq]" "\<lambda>idx. elems losses ! lin [sq, b] (swap01 idx)"] that
    by (simp add: lt(1) lsz)
  show ?thesis
    using run st tg(1) lab el1 el2 f(2-4) c(2,3) len
    by (intro exI [of _ target] exI [of _ logits] exI [of _ "elems lossesT"] exI [of _ n4])
       (simp add: losses_def)
qed

lemma CrossEntropy_ignores_sequence_parallel:
  "CrossEntropy (rt\<lparr>get_sequence_parallel_world_size := w,
                     vocab_sequence_parallel_cross_entropy := sp\<rparr>) output labels s =
   CrossEntropy rt output labels s"
proof -
  have "call_vocab_parallel_cross_entropy
          (rt\<lparr>get_sequence_parallel_world_size := w,
              vocab_sequence_parallel_cross_entropy := sp\<rparr>) =
        call_vocab_parallel_cross_entropy rt"
    by (intro ext) (simp add: call_vocab_parallel_cross_entropy_def)
  then show ?thesis by (simp add: CrossEntropy_def split: list.splits)
qed

text \<open>
  C10. \<open>CrossEntropy\<close> makes exactly one collaborator call, the
  tensor-parallel vocabulary cross-entropy, on the output promoted to float32
  and the labels transposed to \<open>[s, b]\<close>; it returns the sum of the products of
  the per-token losses (transposed back to \<open>[b, s]\<close>) with the loss mask,
  divided by the sum of the loss mask. The sequence-parallel world size and the
  sequence-parallel algorithm have no influence on it; the half-precision-loss
  flag is no input of the function at all. The arithmetic of the array layer is
  a parameter, so this holds for the layer's floating-point operations as they
  are.
\<close>

theorem CrossEntropy_tensor_parallel_masked_mean:
  assumes "sizes labels = [b, sq]"
    and "\<And>logits target. sizes (vocab_parallel_cross_entropy rt logits target) = sizes target"
    and "is_contiguous loss_mask"
    and "length (elems loss_mask) = b * sq"
  shows "\<exists>target logits per_token.
     fst (CrossEntropy rt output [labels, loss_mask] s) =
       Inr (elem_div rt (elem_sum rt (map2 (elem_mul rt) per_token (elems loss_mask)))
                        (elem_sum rt (elems loss_mask))) \<and>
     new_calls s (snd (CrossEntropy rt output [labels, loss_mask] s)) =
       [VocabParallelCrossEntropy logits target] \<and>
     \<not> invoked_sequence_parallel (new_calls s (snd (CrossEntropy rt output [labels, loss_mask] s))) \<and>
     dtype logits = Float \<and> sizes logits = sizes output \<and> elems logits = elems output \<and>
     sizes target = [sq, b] \<and>
     (\<forall>i<b. \<forall>j<sq. elems target ! lin [sq, b] [j, i] = elems labels ! lin [b, sq] [i, j]) \<and>
     length per_token = b * sq \<and>
     (\<forall>i<b. \<forall>j<sq. per_token ! lin [b, sq] [i, j] =
        elems (vocab_parallel_cross_entropy rt logits target) ! lin [sq, b] [j, i]) \<and>
     (\<forall>w sp. CrossEntropy (rt\<lparr>get_sequence_parallel_world_size := w,
                                vocab_sequence_parallel_cross_entropy := sp\<rparr>)
                output [labels, loss_mask] s =
              CrossEntropy rt output [labels, loss_mask] s)"
proof -
  from CrossEntropy_run [OF assms, of "output" "[]" s] obtain target logits per_token n where
    run: "CrossEntropy rt output [labels, loss_mask] s =
       (Inr (elem_div rt (elem_sum rt (map2 (elem_mul rt) per_token (elems loss_mask)))
                         (elem_sum rt (elems loss_mask))),
        s\<lparr>next_storage := n, calls := calls s @ [VocabParallelCrossEntropy logits target]\<rparr>)"
    and props: "sizes target = [sq, b]"
     "\<forall>i<b. \<forall>j<sq. elems target ! lin [sq, b] [j, i] = elems labels ! lin [b, sq] [i, j]"
     "dtype logits = Float" "sizes logits = sizes output" "elems logits = elems output"
     "length per_token = b * sq"
     "\<forall>i<b. \<forall>j<sq. per_token ! lin [b, sq] [i, j] =
        elems (vocab_parallel_cross_entropy rt logits target) ! lin [sq, b] [j, i]"
    by blast
  have nc: "new_calls s (snd (CrossEntropy rt output [labels, loss_mask] s)) =
       [VocabParallelCrossEntropy logits target]"
    by (simp add: run new_calls_def)
  show ?thesis
    apply (rule exI [of _ target])
    apply (rule exI [of _ logits])
    apply (rule exI [of _ per_token])
    using props
    by (simp add: run new_calls_def invoked_sequence_parallel_def
          CrossEntropy_ignores_sequence_parallel del: lin.simps)
qed

lemma fmul_zero: "fmul x (Fin 0) = Fin 0 \<or> fmul x (Fin 0) = NaN"
  by (cases x) auto

lemma fsum_zero_or_nan:
  "acc = Fin 0 \<or> acc = NaN \<Longrightarrow> \<forall>x \<in> set xs. x = Fin 0 \<or> x = NaN \<Longrightarrow>
   foldl fadd acc xs = Fin 0 \<or> foldl fadd acc xs = NaN"
proof (induction xs arbitrary: acc)
  case Nil
  then show ?case by simp
next
  case (Cons x xs)
  have "fadd acc x = Fin 0 \<or> fadd acc x = NaN"
    using Cons.prems by auto
  then show ?case using Cons.IH [of "fadd acc x"] Cons.prems(2) by simp
qed

lemma fsum_zeros: "\<forall>x \<in> set xs. x = Fin 0 \<Longrightarrow> fsum xs = Fin 0"
  unfolding fsum_def
proof (induction xs)
  case Nil
  show ?case by simp
next
  case (Cons x xs)
  then show ?case by simp
qed

lemma masked_products:
  "\<forall>z \<in> set zs. z = Fin 0 \<Longrightarrow> \<forall>p \<in> set (map2 fmul xs zs). p = Fin 0 \<or> p = NaN"
proof (induction zs arbitrary: xs)
  case Nil
  show ?case by simp
next
  case (Cons z zs)
  show ?case
  proof (cases xs)
    case Nil
    then show ?thesis by simp
  next
    case (Cons x xs')
    with Cons.IH [of xs'] Cons.prems fmul_zero [of x] show ?thesis by auto
  qed
qed

text \<open>
  C3 (amended). With a loss mask that is zero everywhere (and shapes that
  fit), \<open>CrossEntropy\<close> raises nothing: it returns the quotient of the masked
  loss sum by the zero mask sum, which in IEEE arithmetic is NaN, whatever the
  per-token losses are.
\<close>

theorem CrossEntropy_zero_mask_nan:
  assumes "sizes labels = [b, sq]"
    and "\<And>logits target. sizes (vocab_parallel_cross_entropy rt logits target) = sizes target"
    and "is_contiguous loss_mask"
    and "length (elems loss_mask) = b * sq"
    and "elem_mul rt = fmul" and "elem_sum rt = fsum" and "elem_div rt = fdiv"
    and "\<forall>x \<in> set (elems loss_mask). x = Fin 0"
  shows "fst (CrossEntropy rt output [labels, loss_mask] s) = Inr NaN"
proof -
  from CrossEntropy_run [OF assms(1-4), of "output" "[]" s] obtain target logits per_token n where
    run: "CrossEntropy rt output [labels, loss_mask] s =
       (Inr (elem_div rt (elem_sum rt (map2 (elem_mul rt) per_token (elems loss_mask)))
                         (elem_sum rt (elems loss_mask))),
        s\<lparr>next_storage := n, calls := calls s @ [VocabParallelCrossEntropy logits target]\<rparr>)"
    by blast
  have den: "fsum (elems loss_mask) = Fin 0" by (rule fsum_zeros [OF assms(8)])
  have "fsum (map2 fmul per_token (elems loss_mask)) = Fin 0 \<or>
        fsum (map2 fmul per_token (elems loss_mask)) = NaN"
    unfolding fsum_def
    by (rule fsum_zero_or_nan [OF _ masked_products [OF assms(8)]]) simp
  then have "fdiv (fsum (map2 fmul per_token (elems loss_mask))) (fsum (elems loss_mask)) = NaN"
    using den by auto
  then show ?thesis by (simp add: run assms(5-7))
qed

section \<open>Results about the curriculum truncation in forward\<close>

lemma indices_valid: "idx \<in> set (indices ns) \<Longrightarrow> list_all2 (<) idx ns"
proof (induction ns arbitrary: idx)
  case Nil
  then show ?case by simp
next
  case (Cons n ns)
  then show ?case by auto
qed

lemma narrow_elems:
  "idx \<in> set (indices ns) \<Longrightarrow> elems (narrow t ns) ! lin ns idx = elems t ! lin (sizes t) idx"
  using map_indices_nth [OF indices_valid, of idx ns "\<lambda>idx. elems t ! lin (sizes t) idx"]
  by (simp add: narrow_def)

lemma narrow_contiguous:
  "\<exists>t' n. contiguous (narrow t ns) s = (Inr t', s\<lparr>next_storage := n\<rparr>) \<and> next_storage s \<le> n \<and>
     truncated_to (next_storage s) t ns t'"
proof -
  from contiguous_result [of "narrow t ns" s] obtain t' n where
    c: "contiguous (narrow t ns) s = (Inr t', s\<lparr>next_storage := n\<rparr>)" "next_storage s \<le> n"
       "sizes t' = sizes (narrow t ns)" "elems t' = elems (narrow t ns)"
       "dtype t' = dtype (narrow t ns)" "is_contiguous t'"
       "storage t' = storage (narrow t ns) \<and> t' = narrow t ns \<and> is_contiguous (narrow t ns) \<or>
        storage t' = next_storage s \<and> \<not> is_contiguous (narrow t ns)"
    by blast
  have sz: "sizes (narrow t ns) = ns" "dtype (narrow t ns) = dtype t"
    "storage (narrow t ns) = storage t"
    by (simp_all add: narrow_def)
  have el: "list_all (\<lambda>idx. elems t' ! lin ns idx = elems t ! lin (sizes t) idx) (indices ns)"
    unfolding list_all_iff c(4) using narrow_elems by blast
  have "truncated_to (next_storage s) t ns t'"
    unfolding truncated_to_def using c(3,5,6,7) sz el by auto
  with c(1,2) show ?thesis by blast
qed

lemma slice_dim1_contiguous:
  assumes "2 \<le> length (sizes t)"
  shows "\<exists>t' n. bind (lift (slice_dim1 t c)) contiguous s = (Inr t', s\<lparr>next_storage := n\<rparr>) \<and>
     next_storage s \<le> n \<and>
     truncated_to (next_storage s) t ((sizes t)[1 := slice_stop c (sizes t ! 1)]) t'"
proof -
  have "bind (lift (slice_dim1 t c)) contiguous s =
        contiguous (narrow t ((sizes t)[1 := slice_stop c (sizes t ! 1)])) s"
    using assms by (simp add: bind_def lift_def slice_dim1_def)
  then show ?thesis
    using narrow_contiguous [of t "(sizes t)[1 := slice_stop c (sizes t ! 1)]" s] by simp
qed

lemma slice_dim2_dim3_contiguous:
  assumes "4 \<le> length (sizes t)"
  shows "\<exists>t' n. bind (lift (slice_dim2_dim3 t c)) contiguous s = (Inr t', s\<lparr>next_storage := n\<rparr>) \<and>
     next_storage s \<le> n \<and>
     truncated_to (next_storage s) t
       ((sizes t)[2 := slice_stop c (sizes t ! 2), 3 := slice_stop c (sizes t ! 3)]) t'"
proof -
  have "bind (lift (slice_dim2_dim3 t c)) contiguous s =
        contiguous (narrow t ((sizes t)[2 := slice_stop c (sizes t ! 2),
                                         3 := slice_stop c (sizes t ! 3)])) s"
    using assms by (simp add: bind_def lift_def slice_dim2_dim3_def)
  then show ?thesis
    using narrow_contiguous [of t "(sizes t)[2 := slice_stop c (sizes t ! 2),
                                              3 := slice_stop c (sizes t ! 3)]" s] by simp
qed

lemma truncated_to_mono: "truncated_to f t ns t' \<Longrightarrow> f0 \<le> f \<Longrightarrow> truncated_to f0 t ns t'"
  by (auto simp: truncated_to_def)

lemma post_processing_extends_calls:
  "\<exists>cs. calls (snd (post_language_model_processing rt H labels W po fp16 s)) = calls s @ cs"
  by (auto simp: post_language_model_processing_def bind_def lift_def transpose01_def
        contiguous_def to_float_def assert_def call_parallel_lm_logits_def
        call_vocab_sequence_parallel_cross_entropy_def call_vocab_parallel_cross_entropy_def
        Let_def split: option.splits sum.splits prod.splits if_splits)

lemma forward_after_truncation:
  assumes "curriculum_truncation rt input_ids position_ids attention_mask labels c s =
             (Inr (iids, pids, lb, am), s')"
  shows "\<exists>cs. calls (snd (forward self rt input_ids position_ids attention_mask
                  rii rpi ram labels tokentype_ids inference_params c s)) =
     calls s' @ LanguageModel \<lparr>lm_input_ids = iids, lm_position_ids = pids, lm_attention_mask = am,
          lm_retriever_input_ids = rii, lm_retriever_position_ids = rpi,
          lm_retriever_attn_mask = ram, lm_inference_params = inference_params\<rparr> # cs"
proof -
  define inputs where "inputs = \<lparr>lm_input_ids = iids, lm_position_ids = pids, lm_attention_mask = am,
          lm_retriever_input_ids = rii, lm_retriever_position_ids = rpi,
          lm_retriever_attn_mask = ram, lm_inference_params = inference_params\<rparr>"
  define s2 where "s2 = s'\<lparr>calls := calls s' @ [LanguageModel inputs]\<rparr>"
  obtain lm_output moe_losses where lm: "language_model rt inputs = (lm_output, moe_losses)"
    by (cases "language_model rt inputs")
  have call: "call_language_model rt inputs s' = (Inr (lm_output, moe_losses), s2)"
    by (simp add: call_language_model_def lm s2_def)
  show ?thesis
  proof (cases "post_process self")
    case True
    from post_processing_extends_calls [of rt lm_output lb _ "parallel_output self"
        "fp16_lm_cross_entropy self" s2]
    obtain cs where cs: "calls (snd (post_language_model_processing rt lm_output lb
          (if untie_embeddings_and_output_weights self then output_layer_weight self
           else shared_embedding_or_output_weight self)
          (parallel_output self) (fp16_lm_cross_entropy self) s2)) = calls s2 @ cs"
      by blast
    have "calls (snd (forward self rt input_ids position_ids attention_mask
                  rii rpi ram labels tokentype_ids inference_params c s)) = calls s2 @ cs"
      using True cs
      unfolding forward_def
      by (simp add: bind_Inr [where f = "curriculum_truncation rt input_ids position_ids
                attention_mask labels c", OF assms] inputs_def [symmetric]
            bind_Inr [where f = "call_language_model rt inputs", OF call])
         (auto simp: bind_def ret_def split: sum.splits prod.splits)
    then show ?thesis by (simp add: s2_def inputs_def)
  next
    case False
    have "calls (snd (forward self rt input_ids position_ids attention_mask
                  rii rpi ram labels tokentype_ids inference_params c s)) = calls s2"
      using False
      unfolding forward_def
      by (simp add: bind_Inr [where f = "curriculum_truncation rt input_ids position_ids
                attention_mask labels c", OF assms] inputs_def [symmetric]
            bind_Inr [where f = "call_language_model rt inputs", OF call])
         (simp add: bind_def ret_def)
    then show ?thesis by (simp add: s2_def inputs_def)
  qed
qed

lemma slice_stop_nonneg: "0 \<le> c \<Longrightarrow> slice_stop c n = min (nat c) n"
  by (simp add: slice_stop_def)

text \<open>
  C8 (amended). For a curriculum length \<open>c \<ge> 0\<close> strictly smaller than the
  sequence length of \<open>input_ids\<close>: \<open>input_ids\<close>, \<open>position_ids\<close> and the
  labels (when present) are cut to their first \<open>c\<close> positions along dimension
  1 and the attention mask to \<open>c\<close> along dimensions 2 and 3; each result is
  contiguous and shows the elements of the original at the same index tuples.
  It is a copy in fresh storage when the slice is not contiguous, and the slice
  view itself, on the storage of the original, when it already is. These are
  the inputs the inner language model is called with. For \<open>c\<close> at least the
  sequence length all four pass through unchanged; in both cases
  \<open>args.curriculum_seqlen\<close> becomes \<open>c\<close>.
\<close>

theorem curriculum_truncation_slices:
  assumes "0 \<le> c"
    and "2 \<le> length (sizes input_ids)"
    and "2 \<le> length (sizes position_ids)"
    and "case labels of None \<Rightarrow> True | Some l \<Rightarrow> 2 \<le> length (sizes l)"
    and "4 \<le> length (sizes attention_mask)"
  shows "(c < int (sizes input_ids ! 1) \<longrightarrow>
           (\<exists>iids pids lb am s' cs.
              curriculum_truncation rt input_ids position_ids attention_mask labels (Some c) s =
                (Inr (iids, pids, lb, am), s') \<and>
              truncated_to (next_storage s) input_ids ((sizes input_ids)[1 := nat c]) iids \<and>
              truncated_to (next_storage s) position_ids
                ((sizes position_ids)[1 := min (nat c) (sizes position_ids ! 1)]) pids \<and>
              (case labels of
                 None \<Rightarrow> lb = None
               | Some l \<Rightarrow>
                   (\<exists>l'. lb = Some l' \<and>
                      truncated_to (next_storage s) l
                        ((sizes l)[1 := min (nat c) (sizes l ! 1)]) l')) \<and>
              truncated_to (next_storage s) attention_mask
                ((sizes attention_mask)[2 := min (nat c) (sizes attention_mask ! 2),
                                        3 := min (nat c) (sizes attention_mask ! 3)]) am \<and>
              args_curriculum_seqlen s' = Some c \<and>
              calls (snd (forward self rt input_ids position_ids attention_mask rii rpi ram
                            labels tokentype_ids inference_params (Some c) s)) =
                calls s @ LanguageModel
                  \<lparr>lm_input_ids = iids, lm_position_ids = pids, lm_attention_mask = am,
                   lm_retriever_input_ids = rii, lm_retriever_position_ids = rpi,
                   lm_retriever_attn_mask = ram, lm_inference_params = inference_params\<rparr> # cs)) \<and>
         (int (sizes input_ids ! 1) \<le> c \<longrightarrow>
           curriculum_truncation rt input_ids position_ids attention_mask labels (Some c) s =
             (Inr (input_ids, position_ids, labels, attention_mask),
              s\<lparr>args_curriculum_seqlen := Some c\<rparr>) \<and>
           (\<exists>cs. calls (snd (forward self rt input_ids position_ids attention_mask rii rpi ram
                            labels tokentype_ids inference_params (Some c) s)) =
                calls s @ LanguageModel
                  \<lparr>lm_input_ids = input_ids, lm_position_ids = position_ids,
                   lm_attention_mask = attention_mask,
                   lm_retriever_input_ids = rii, lm_retriever_position_ids = rpi,
                   lm_retriever_attn_mask = ram, lm_inference_params = inference_params\<rparr> # cs))"
proof (intro conjI impI)
  assume short: "c < int (sizes input_ids ! 1)"
  define s0 where "s0 = s\<lparr>args_curriculum_seqlen := Some c\<rparr>"
  have f0: "next_storage s0 = next_storage s" by (simp add: s0_def)
  have stop: "slice_stop c (sizes input_ids ! 1) = nat c"
    using short assms(1) by (simp add: slice_stop_nonneg)
  from slice_dim1_contiguous [OF assms(2), of c s0] obtain iids n1 where
    a: "bind (lift (slice_dim1 input_ids c)) contiguous s0 = (Inr iids, s0\<lparr>next_storage := n1\<rparr>)"
       "next_storage s0 \<le> n1"
       "truncated_to (next_storage s0) input_ids ((sizes input_ids)[1 := nat c]) iids"
    unfolding stop by blast
  define s1 where "s1 = s0\<lparr>next_storage := n1\<rparr>"
  from slice_dim1_contiguous [OF assms(3), of c s1] obtain pids n2 where
    b: "bind (lift (slice_dim1 position_ids c)) contiguous s1 = (Inr pids, s1\<lparr>next_storage := n2\<rparr>)"
       "next_storage s1 \<le> n2"
       "truncated_to (next_storage s1) position_ids
          ((sizes position_ids)[1 := min (nat c) (sizes position_ids ! 1)]) pids"
    unfolding slice_stop_nonneg [OF assms(1)] by blast
  define s2 where "s2 = s1\<lparr>next_storage := n2\<rparr>"
  have n12: "next_storage s \<le> n1" "next_storage s \<le> n2"
    using a(2) b(2) by (simp_all add: f0 s1_def)
  obtain lb n3 where
    l: "(case labels of None \<Rightarrow> ret None
         | Some labels \<Rightarrow> bind (bind (lift (slice_dim1 labels c)) contiguous)
                            (\<lambda>labels. ret (Some labels))) s2 = (Inr lb, s2\<lparr>next_storage := n3\<rparr>)"
       "n2 \<le> n3"
       "case labels of None \<Rightarrow> lb = None
        | Some l \<Rightarrow> (\<exists>l'. lb = Some l' \<and>
            truncated_to (next_storage s) l ((sizes l)[1 := min (nat c) (sizes l ! 1)]) l')"
  proof (cases labels)
    case None
    have "s2\<lparr>next_storage := n2\<rparr> = s2" by (simp add: s2_def)
    then show ?thesis using None that [of None n2] by (simp add: ret_def)
  next
    case (Some l)
    then have r: "2 \<le> length (sizes l)" using assms(4) by simp
    from slice_dim1_contiguous [OF r, of c s2] obtain l' n where
      c: "bind (lift (slice_dim1 l c)) contiguous s2 = (Inr l', s2\<lparr>next_storage := n\<rparr>)"
         "next_storage s2 \<le> n"
         "truncated_to (next_storage s2) l ((sizes l)[1 := min (nat c) (sizes l ! 1)]) l'"
      unfolding slice_stop_nonneg [OF assms(1)] by blast
    have "truncated_to (next_storage s) l ((sizes l)[1 := min (nat c) (sizes l ! 1)]) l'"
      using truncated_to_mono [OF c(3)] n12 by (simp add: s2_def)
    moreover have "bind (bind (lift (slice_dim1 l c)) contiguous) (\<lambda>labels. ret (Some labels)) s2 =
          (Inr (Some l'), s2\<lparr>next_storage := n\<rparr>)"
      by (subst bind_Inr [where f = "bind (lift (slice_dim1 l c)) contiguous", OF c(1)])
         (simp add: ret_def)
    moreover have "n2 \<le> n" using c(2) by (simp add: s2_def)
    ultimately show ?thesis
      using Some that [of "Some l'" n] by simp
  qed
  define s3 where "s3 = s2\<lparr>next_storage := n3\<rparr>"
  from slice_dim2_dim3_contiguous [OF assms(5), of c s3] obtain am n4 where
    d: "bind (lift (slice_dim2_dim3 attention_mask c)) contiguous s3 =
          (Inr am, s3\<lparr>next_storage := n4\<rparr>)"
       "truncated_to (next_storage s3) attention_mask
          ((sizes attention_mask)[2 := min (nat c) (sizes attention_mask ! 2),
                                  3 := min (nat c) (sizes attention_mask ! 3)]) am"
    unfolding slice_stop_nonneg [OF assms(1)] by blast
  have sz: "lift (size1 input_ids) s0 = (Inr (sizes input_ids ! 1), s0)"
    using assms(2) by (simp add: lift_def size1_def)
  have k0: "bind (\<lambda>s. (Inr (), s\<lparr>args_curriculum_seqlen := Some c\<rparr>)) g s = g () s0"
    for g :: "unit \<Rightarrow> ('a, 'r) run"
    by (simp add: bind_def s0_def)
  have k1: "bind (lift (size1 input_ids)) g s0 = g (sizes input_ids ! 1) s0"
    for g :: "nat \<Rightarrow> ('a, 'r) run"
    by (simp add: bind_def sz)
  have k2: "bind (bind (lift (slice_dim1 input_ids c)) contiguous) g s0 = g iids s1"
    for g :: "'a tensor \<Rightarrow> ('a, 'r) run"
    unfolding s1_def
    by (rule bind_Inr [where f = "bind (lift (slice_dim1 input_ids c)) contiguous", OF a(1)])
  have k3: "bind (bind (lift (slice_dim1 position_ids c)) contiguous) g s1 = g pids s2"
    for g :: "'a tensor \<Rightarrow> ('a, 'r) run"
    unfolding s2_def
    by (rule bind_Inr [where f = "bind (lift (slice_dim1 position_ids c)) contiguous", OF b(1)])
  have k4: "bind (case labels of None \<Rightarrow> ret None
         | Some labels \<Rightarrow> bind (bind (lift (slice_dim1 labels c)) contiguous)
                            (\<lambda>labels. ret (Some labels))) g s2 = g lb s3"
    for g :: "'a tensor option \<Rightarrow> ('a, 'r) run"
    unfolding s3_def
    by (rule bind_Inr [where f = "case labels of None \<Rightarrow> ret None
         | Some labels \<Rightarrow> bind (bind (lift (slice_dim1 labels c)) contiguous)
                            (\<lambda>labels. ret (Some labels))", OF l(1)])
  have k5: "bind (bind (lift (slice_dim2_dim3 attention_mask c)) contiguous) g s3 =
            g am (s3\<lparr>next_storage := n4\<rparr>)"
    for g :: "'a tensor \<Rightarrow> ('a, 'r) run"
    by (rule bind_Inr [where f = "bind (lift (slice_dim2_dim3 attention_mask c)) contiguous",
          OF d(1)])
  have run: "curriculum_truncation rt input_ids position_ids attention_mask labels (Some c) s =
             (Inr (iids, pids, lb, am), s3\<lparr>next_storage := n4\<rparr>)"
    unfolding curriculum_truncation_def option.case
    by (simp only: k0 k1 short if_True k2 k3 k4 k5) (simp add: ret_def)
  have t1: "truncated_to (next_storage s) input_ids ((sizes input_ids)[1 := nat c]) iids"
    using a(3) by (simp add: f0)
  have t2: "truncated_to (next_storage s) position_ids
          ((sizes position_ids)[1 := min (nat c) (sizes position_ids ! 1)]) pids"
    using truncated_to_mono [OF b(3)] n12 by (simp add: s1_def)
  have t4: "truncated_to (next_storage s) attention_mask
          ((sizes attention_mask)[2 := min (nat c) (sizes attention_mask ! 2),
                                  3 := min (nat c) (sizes attention_mask ! 3)]) am"
    using truncated_to_mono [OF d(2)] n12 l(2) by (simp add: s3_def)
  from forward_after_truncation [OF run, of self rii rpi ram tokentype_ids inference_params]
  obtain cs where
    fw: "calls (snd (forward self rt input_ids position_ids attention_mask rii rpi ram
                            labels tokentype_ids inference_params (Some c) s)) =
         calls (s3\<lparr>next_storage := n4\<rparr>) @ LanguageModel
                  \<lparr>lm_input_ids = iids, lm_position_ids = pids, lm_attention_mask = am,
                   lm_retriever_input_ids = rii, lm_retriever_position_ids = rpi,
                   lm_retriever_attn_mask = ram, lm_inference_params = inference_params\<rparr> # cs"
    by blast
  have cs0: "calls (s3\<lparr>next_storage := n4\<rparr>) = calls s"
    "args_curriculum_seqlen (s3\<lparr>next_storage := n4\<rparr>) = Some c"
    by (simp_all add: s3_def s2_def s1_def s0_def)
  show "\<exists>iids pids lb am s' cs.
              curriculum_truncation rt input_ids position_ids attention_mask labels (Some c) s =
                (Inr (iids, pids, lb, am), s') \<and>
              truncated_to (next_storage s) input_ids ((sizes input_ids)[1 := nat c]) iids \<and>
              truncated_to (next_storage s) position_ids
                ((sizes position_ids)[1 := min (nat c) (sizes position_ids ! 1)]) pids \<and>
              (case labels of
                 None \<Rightarrow> lb = None
               | Some l \<Rightarrow>
                   (\<exists>l'. lb = Some l' \<and>
                      truncated_to (next_storage s) l
                        ((sizes l)[1 := min (nat c) (sizes l ! 1)]) l')) \<and>
              truncated_to (next_storage s) attention_mask
                ((sizes attention_mask)[2 := min (nat c) (sizes attention_mask ! 2),
                                        3 := min (nat c) (sizes attention_mask ! 3)]) am \<and>
              args_curriculum_seqlen s' = Some c \<and>
              calls (snd (forward self rt input_ids position_ids attention_mask rii rpi ram
                            labels tokentype_ids inference_params (Some c) s)) =
                calls s @ LanguageModel
                  \<lparr>lm_input_ids = iids, lm_position_ids = pids, lm_attention_mask = am,
                   lm_retriever_input_ids = rii, lm_retriever_position_ids = rpi,
                   lm_retriever_attn_mask = ram, lm_inference_params = inference_params\<rparr> # cs"
    apply (rule exI [of _ iids])
    apply (rule exI [of _ pids])
    apply (rule exI [of _ lb])
    apply (rule exI [of _ am])
    apply (rule exI [of _ "s3\<lparr>next_storage := n4\<rparr>"])
    apply (rule exI [of _ cs])
    using run t1 t2 l(3) t4 fw cs0 by simp
next
  assume long: "int (sizes input_ids ! 1) \<le> c"
  show run: "curriculum_truncation rt input_ids position_ids attention_mask labels (Some c) s =
             (Inr (input_ids, position_ids, labels, attention_mask),
              s\<lparr>args_curriculum_seqlen := Some c\<rparr>)"
    using long assms(2)
    by (simp add: curriculum_truncation_def bind_def lift_def size1_def ret_def)
  from forward_after_truncation [OF run, of self rii rpi ram tokentype_ids inference_params]
  show "\<exists>cs. calls (snd (forward self rt input_ids position_ids attention_mask rii rpi ram
                            labels tokentype_ids inference_params (Some c) s)) =
                calls s @ LanguageModel
                  \<lparr>lm_input_ids = input_ids, lm_position_ids = position_ids,
                   lm_attention_mask = attention_mask,
                   lm_retriever_input_ids = rii, lm_retriever_position_ids = rpi,
                   lm_retriever_attn_mask = ram, lm_inference_params = inference_params\<rparr> # cs"
    by simp
qed

section \<open>Evaluation at concrete inputs\<close>

lemmas example_tensors = example_tensor_def example_runtime_def example_state_def
  example_hidden_def example_weight_def example_labels_def example_zero_mask_def
  example_logits_def example_ids_def example_attention_mask_def example_instance_def

lemmas run_defs = bind_def lift_def ret_def assert_def contiguous_def to_float_def
  is_contiguous_def transpose01_def slice_dim1_def slice_dim2_dim3_def size1_def narrow_def
  slice_stop_def view_flat_def broadcast_mul_def call_parallel_lm_logits_def
  call_vocab_sequence_parallel_cross_entropy_def call_vocab_parallel_cross_entropy_def
  call_language_model_def

text \<open>
  C1 at a concrete call. Without \<open>return_moe_loss\<close> the result of \<open>forward\<close>
  is the pair of the output with itself, not the output alone; with it, the
  pair of the output and the MoE losses.
\<close>

theorem forward_returns_output_twice:
  "fst (forward (example_instance False) (example_runtime 1 Half) (example_ids 11 1)
          (example_ids 12 1) example_attention_mask None None None None None None None
          example_state) =
     Inr (TupleV [TensorV \<lparr>storage = 100, sizes = [1, 4, 3], strides = [3, 3, 1], dtype = Half,
                    elems = replicate 12 (Fin 0)\<rparr>,
                  TensorV \<lparr>storage = 100, sizes = [1, 4, 3], strides = [3, 3, 1], dtype = Half,
                    elems = replicate 12 (Fin 0)\<rparr>]) \<and>
   fst (forward (example_instance False) (example_runtime 1 Half) (example_ids 11 1)
          (example_ids 12 1) example_attention_mask None None None None None None None
          example_state) \<noteq>
     Inr (TupleV [TensorV \<lparr>storage = 100, sizes = [1, 4, 3], strides = [3, 3, 1], dtype = Half,
                    elems = replicate 12 (Fin 0)\<rparr>]) \<and>
   fst (forward (example_instance True) (example_runtime 1 Half) (example_ids 11 1)
          (example_ids 12 1) example_attention_mask None None None None None None None
          example_state) =
     Inr (TupleV [TensorV \<lparr>storage = 100, sizes = [1, 4, 3], strides = [3, 3, 1], dtype = Half,
                    elems = replicate 12 (Fin 0)\<rparr>, ListV []])"
  by code_simp

text \<open>
  With a batch of one sequence the slices of \<open>input_ids\<close> and \<open>position_ids\<close>
  are already contiguous (a dimension of size 1 does not count), so
  \<open>.contiguous()\<close> returns the views: they stay on the storages 11 and 12 of
  the originals. Only the attention mask is copied, into the fresh storage 200.
\<close>

theorem curriculum_truncation_counterexample:
  "fst (curriculum_truncation (example_runtime 1 Half) (example_ids 11 1) (example_ids 12 1)
          example_attention_mask None (Some 2) example_state) =
     Inr (\<lparr>storage = 11, sizes = [1, 2], strides = [4, 1], dtype = Long,
            elems = [Fin 0, Fin 1]\<rparr>,
          \<lparr>storage = 12, sizes = [1, 2], strides = [4, 1], dtype = Long,
            elems = [Fin 0, Fin 1]\<rparr>,
          None,
          \<lparr>storage = 200, sizes = [1, 1, 2, 2], strides = [4, 4, 2, 1], dtype = Bool,
            elems = [Fin 0, Fin 1, Fin 4, Fin 5]\<rparr>) \<and>
   storage (example_ids 11 1) = 11 \<and> storage (example_ids 12 1) = 12 \<and>
   sizes (example_ids 11 1) = [1, 4] \<and>
   next_storage example_state = 200"
  by code_simp

theorem curriculum_truncation_witness:
  "(0::int) \<le> 2 \<and> 2 \<le> length (sizes (example_ids 11 2)) \<and>
   2 \<le> length (sizes (example_ids 12 2)) \<and> 2 \<le> length (sizes (example_ids 14 2)) \<and>
   4 \<le> length (sizes example_attention_mask) \<and>
   (2::int) < int (sizes (example_ids 11 2) ! 1) \<and>
   (\<exists>iids pids l' am s'.
      curriculum_truncation (example_runtime 1 Half) (example_ids 11 2) (example_ids 12 2)
        example_attention_mask (Some (example_ids 14 2)) (Some 2) example_state =
        (Inr (iids, pids, Some l', am), s') \<and>
      sizes iids = [2, 2] \<and> sizes pids = [2, 2] \<and> sizes l' = [2, 2] \<and>
      sizes am = [1, 1, 2, 2] \<and> 200 \<le> storage iids \<and> args_curriculum_seqlen s' = Some 2) \<and>
   curriculum_truncation (example_runtime 1 Half) (example_ids 11 2) (example_ids 12 2)
     example_attention_mask (Some (example_ids 14 2)) (Some 4) example_state =
     (Inr (example_ids 11 2, example_ids 12 2, Some (example_ids 14 2), example_attention_mask),
      example_state\<lparr>args_curriculum_seqlen := Some 4\<rparr>)"
proof -
  have h: "(0::int) \<le> 2" "2 \<le> length (sizes (example_ids 11 2))"
    "2 \<le> length (sizes (example_ids 12 2))"
    "case Some (example_ids 14 2) of None \<Rightarrow> True | Some l \<Rightarrow> 2 \<le> length (sizes l)"
    "4 \<le> length (sizes example_attention_mask)"
    by (simp_all add: example_ids_def example_tensor_def example_attention_mask_def)
  have h4: "(0::int) \<le> 4" by simp
  have sz: "sizes (example_ids 11 2) = [2, 4]" "sizes (example_ids 12 2) = [2, 4]"
    "sizes (example_ids 14 2) = [2, 4]" "sizes example_attention_mask = [1, 1, 4, 4]"
    by (simp_all add: example_ids_def example_tensor_def example_attention_mask_def)
  have nc: "\<not> is_contiguous (narrow (example_ids 11 2) [2, 2])"
    by (simp add: is_contiguous_def narrow_def example_ids_def example_tensor_def)
  have ns: "next_storage example_state = 200" by (simp add: example_state_def)
  note T = curriculum_truncation_slices [where rt = "example_runtime 1 Half"
      and s = example_state and self = "example_instance True" and rii = None and rpi = None
      and ram = None and tokentype_ids = None and inference_params = None]
  have short: "(2::int) < int (sizes (example_ids 11 2) ! 1)" by (simp add: sz)
  from T [OF h, THEN conjunct1] short obtain iids pids lb am s' where
    r: "curriculum_truncation (example_runtime 1 Half) (example_ids 11 2) (example_ids 12 2)
        example_attention_mask (Some (example_ids 14 2)) (Some 2) example_state =
        (Inr (iids, pids, lb, am), s')"
    and t: "truncated_to (next_storage example_state) (example_ids 11 2)
              ((sizes (example_ids 11 2))[1 := nat 2]) iids"
      "truncated_to (next_storage example_state) (example_ids 12 2)
         ((sizes (example_ids 12 2))[1 := min (nat 2) (sizes (example_ids 12 2) ! 1)]) pids"
      "\<exists>l'. lb = Some l' \<and> truncated_to (next_storage example_state) (example_ids 14 2)
         ((sizes (example_ids 14 2))[1 := min (nat 2) (sizes (example_ids 14 2) ! 1)]) l'"
      "truncated_to (next_storage example_state) example_attention_mask
         ((sizes example_attention_mask)[2 := min (nat 2) (sizes example_attention_mask ! 2),
            3 := min (nat 2) (sizes example_attention_mask ! 3)]) am"
      "args_curriculum_seqlen s' = Some 2"
    by auto
  from t(3) obtain l' where l': "lb = Some l'" "sizes l' = [2, 2]"
    by (auto simp: truncated_to_def sz)
  have a: "sizes iids = [2, 2]" "200 \<le> storage iids" "sizes pids = [2, 2]"
    "sizes am = [1, 1, 2, 2]"
    using t(1,2,4) nc by (simp_all add: truncated_to_def sz ns)
  have first: "\<exists>iids pids l' am s'.
      curriculum_truncation (example_runtime 1 Half) (example_ids 11 2) (example_ids 12 2)
        example_attention_mask (Some (example_ids 14 2)) (Some 2) example_state =
        (Inr (iids, pids, Some l', am), s') \<and>
      sizes iids = [2, 2] \<and> sizes pids = [2, 2] \<and> sizes l' = [2, 2] \<and>
      sizes am = [1, 1, 2, 2] \<and> 200 \<le> storage iids \<and> args_curriculum_seqlen s' = Some 2"
    using r l' a t(5) by blast
  have long: "int (sizes (example_ids 11 2) ! 1) \<le> 4" by (simp add: sz)
  from T [OF h4 h(2-5), THEN conjunct2] long
  have second: "curriculum_truncation (example_runtime 1 Half) (example_ids 11 2) (example_ids 12 2)
     example_attention_mask (Some (example_ids 14 2)) (Some 4) example_state =
     (Inr (example_ids 11 2, example_ids 12 2, Some (example_ids 14 2), example_attention_mask),
      example_state\<lparr>args_curriculum_seqlen := Some 4\<rparr>)"
    by blast
  show ?thesis
    using h(1,2,3,5) short first second by (simp add: sz)
qed

lemma example_facts:
  "2 \<le> length (sizes example_labels)"
  "sizes example_labels = [1, 2]"
  "sizes example_hidden = [2, 1, 1]"
  "dtype (parallel_lm_logits (example_runtime w dt) example_hidden example_weight po) = dt"
  "sizes (parallel_lm_logits (example_runtime w dt) example_hidden example_weight po) = [2, 1, 3]"
  "get_sequence_parallel_world_size (example_runtime w dt) = w"
  "sizes (vocab_sequence_parallel_cross_entropy (example_runtime w dt) logits target) = sizes target"
  "sizes (vocab_parallel_cross_entropy (example_runtime w dt) logits target) = sizes target"
  "is_contiguous example_zero_mask"
  "length (elems example_zero_mask) = 1 * 2"
  "elem_mul (example_runtime w dt) = fmul"
  "elem_sum (example_runtime w dt) = fsum"
  "elem_div (example_runtime w dt) = fdiv"
  "\<forall>x \<in> set (elems example_zero_mask). x = Fin 0"
  by (simp_all add: example_tensors is_contiguous_def)

theorem cross_entropy_selection_witness:
  "2 \<le> length (sizes example_labels) \<and>
   dtype (parallel_lm_logits (example_runtime 4 Half) example_hidden example_weight True) = Half \<and>
   (1::int) \<le> get_sequence_parallel_world_size (example_runtime 4 Half) \<and>
   invoked_sequence_parallel (new_calls example_state
     (snd (post_language_model_processing (example_runtime 4 Half) example_hidden
             (Some example_labels) example_weight True True example_state))) \<and>
   \<not> invoked_tensor_parallel (new_calls example_state
     (snd (post_language_model_processing (example_runtime 4 Half) example_hidden
             (Some example_labels) example_weight True True example_state))) \<and>
   invoked_tensor_parallel (new_calls example_state
     (snd (post_language_model_processing (example_runtime 1 Half) example_hidden
             (Some example_labels) example_weight True False example_state))) \<and>
   \<not> invoked_sequence_parallel (new_calls example_state
     (snd (post_language_model_processing (example_runtime 1 Half) example_hidden
             (Some example_labels) example_weight True False example_state)))"
proof -
  have h2: "True \<longrightarrow>
    dtype (parallel_lm_logits (example_runtime 4 Half) example_hidden example_weight True) = Half"
    by (simp add: example_facts)
  have h3: "1 \<le> get_sequence_parallel_world_size (example_runtime 4 Half)"
    by (simp add: example_facts)
  have g2: "False \<longrightarrow>
    dtype (parallel_lm_logits (example_runtime 1 Half) example_hidden example_weight True) = Half"
    by simp
  have g3: "1 \<le> get_sequence_parallel_world_size (example_runtime 1 Half)"
    by (simp add: example_facts)
  show ?thesis
    using cross_entropy_selection [OF example_facts(1) h2 h3, of example_state]
      cross_entropy_selection [OF example_facts(1) g2 g3, of example_state]
    by (simp add: example_facts)
qed

theorem precision_mismatch_assertion_witness:
  "2 \<le> length (sizes example_labels) \<and>
   dtype (parallel_lm_logits (example_runtime 1 Float) example_hidden example_weight True) \<noteq> Half \<and>
   fst (post_language_model_processing (example_runtime 1 Float) example_hidden
          (Some example_labels) example_weight True True example_state) = Inl AssertionError \<and>
   new_calls example_state
     (snd (post_language_model_processing (example_runtime 1 Float) example_hidden
             (Some example_labels) example_weight True True example_state)) =
     [ParallelLmLogits example_hidden example_weight True] \<and>
   fst (post_language_model_processing (example_runtime 1 Float) example_hidden
          (Some example_labels) example_weight True False example_state) \<noteq> Inl AssertionError"
  using precision_mismatch_assertion [OF example_facts(1), of "example_runtime 1 Float"
      example_hidden example_weight True example_state]
  by (simp add: example_facts)

theorem post_processing_orientation_witness:
  "sizes example_hidden = [2, 1, 1] \<and>
   sizes (parallel_lm_logits (example_runtime 1 Half) example_hidden example_weight True) =
     [2, 1, 3] \<and>
   sizes example_labels = [1, 2] \<and>
   (\<exists>t. fst (post_language_model_processing (example_runtime 1 Half) example_hidden None
               example_weight True True example_state) = Inr t \<and> sizes t = [1, 2, 3]) \<and>
   (\<exists>t. fst (post_language_model_processing (example_runtime 1 Half) example_hidden
               (Some example_labels) example_weight True True example_state) = Inr t \<and>
        sizes t = [1, 2])"
proof -
  have h: "True \<longrightarrow>
    dtype (parallel_lm_logits (example_runtime 1 Half) example_hidden example_weight True) = Half"
    by (simp add: example_facts)
  note T = post_processing_orientation [OF example_facts(3) example_facts(5)
      example_facts(7) example_facts(8) example_facts(2) h, of example_state]
  from T [THEN conjunct1] have a:
    "\<exists>t. fst (post_language_model_processing (example_runtime 1 Half) example_hidden None
               example_weight True True example_state) = Inr t \<and> sizes t = [1, 2, 3]"
    by blast
  from T [THEN conjunct2] have b:
    "\<exists>t. fst (post_language_model_processing (example_runtime 1 Half) example_hidden
               (Some example_labels) example_weight True True example_state) = Inr t \<and>
        sizes t = [1, 2]"
    by blast
  show ?thesis using a b by (simp add: example_facts)
qed

theorem CrossEntropy_tensor_parallel_masked_mean_witness:
  "sizes example_labels = [1, 2] \<and> is_contiguous example_zero_mask \<and>
   length (elems example_zero_mask) = 1 * 2 \<and>
   (\<exists>target logits.
      new_calls example_state
        (snd (CrossEntropy (example_runtime 4 Half) example_logits
                [example_labels, example_zero_mask] example_state)) =
        [VocabParallelCrossEntropy logits target] \<and>
      dtype logits = Float \<and> sizes target = [2, 1]) \<and>
   \<not> invoked_sequence_parallel (new_calls example_state
        (snd (CrossEntropy (example_runtime 4 Half) example_logits
                [example_labels, example_zero_mask] example_state)))"
proof -
  note T = CrossEntropy_tensor_parallel_masked_mean [of example_labels 1 2 "example_runtime 4 Half"
      example_zero_mask example_logits example_state,
      OF example_facts(2) example_facts(8) example_facts(9) example_facts(10)]
  have "(\<exists>target logits.
      new_calls example_state
        (snd (CrossEntropy (example_runtime 4 Half) example_logits
                [example_labels, example_zero_mask] example_state)) =
        [VocabParallelCrossEntropy logits target] \<and>
      dtype logits = Float \<and> sizes target = [2, 1]) \<and>
    \<not> invoked_sequence_parallel (new_calls example_state
        (snd (CrossEntropy (example_runtime 4 Half) example_logits
                [example_labels, example_zero_mask] example_state)))"
    using T
    apply (elim exE conjE)
    apply (rule conjI)
     apply (rule_tac x = target in exI)
     apply (rule_tac x = logits in exI)
     apply (intro conjI; assumption)
    apply assumption
    done
  then show ?thesis using example_facts(2,9,10) by simp
qed

theorem CrossEntropy_zero_mask_nan_witness:
  "sizes example_labels = [1, 2] \<and> is_contiguous example_zero_mask \<and>
   length (elems example_zero_mask) = 1 * 2 \<and>
   elems example_zero_mask = [Fin 0, Fin 0] \<and>
   fst (CrossEntropy (example_runtime 1 Half) example_logits
          [example_labels, example_zero_mask] example_state) = Inr NaN"
  using CrossEntropy_zero_mask_nan [of example_labels 1 2 "example_runtime 1 Half"
      example_zero_mask example_logits example_state,
      OF example_facts(2) example_facts(8) example_facts(9)
      example_facts(10) example_facts(11) example_facts(12) example_facts(13) example_facts(14)]
    example_facts(2,9,10)
  by (simp add: example_zero_mask_def example_tensor_def)

text \<open>
  The claim as written asks for an error; on a zero mask the function returns
  NaN.
\<close>

theorem CrossEntropy_zero_mask_counterexample:
  "elems example_zero_mask = [Fin 0, Fin 0] \<and>
   sizes example_zero_mask = sizes example_labels \<and>
   fst (CrossEntropy (example_runtime 1 Half) example_logits
          [example_labels, example_zero_mask] example_state) = Inr NaN"
  by code_simp

end
